theory Spec2Isabelle
  imports Main
begin

section \<open>The image reader of niftynet/io/image_reader.py\<close>

text \<open>
  A shallow embedding of \<^verbatim>\<open>niftynet/io/image_reader.py\<close>: the merge of the
  per-modality csv manifests, the resolution of the output fields, the construction of
  the list of image objects and the two access modes of \<^verbatim>\<open>layer_op\<close>.

  Conventions of the embedding.
  \<^item> A Python dictionary is an association list in iteration order; its keys are
    distinct, so iterating over the items is iterating over the keys and looking each
    one up. Lookups by key are \<open>map_of\<close>.
  \<^item> A tuple of strings is a list of strings.
  \<^item> Every \<^verbatim>\<open>raise\<close> is a value \<open>Inl e\<close> of a sum type. Methods that assign to
    attributes of the reader return the reader next to their result, also when they
    raise, since the assignments made before the exception stay.
  \<^item> An attribute \<^verbatim>\<open>self._x\<close> is the record field \<open>p_x\<close>; identifiers cannot
    start with an underscore. The functions \<^verbatim>\<open>_create_image\<close>,
    \<^verbatim>\<open>_filename_to_image_list\<close> and \<^verbatim>\<open>_load_and_merge_csv_files\<close> lose
    their leading underscore for the same reason.
  \<^item> Calls of \<^verbatim>\<open>tf.logging\<close> and \<^verbatim>\<open>printProgressBar\<close> only write to the log
    and the terminal and are left out.
  \<^item> The image objects made by \<^verbatim>\<open>ImageFactory.create_instance\<close> belong to another
    module. They are values of a type variable \<open>'img\<close>; the factory, the attribute
    \<^verbatim>\<open>dtype\<close> and the method \<^verbatim>\<open>get_data\<close> are parameters \<open>create_instance\<close>,
    \<open>dtype\<close> and \<open>get_data\<close> of the functions that use them.
  \<^item> The inference of column types that \<^verbatim>\<open>pandas.read_csv\<close> performs is a parameter
    \<open>infer\<close> in the same way.
\<close>

subsection \<open>Exceptions\<close>

datatype error =
    IOError_csv_not_found string
      \<comment> \<open>\<^verbatim>\<open>raise IOError\<close> after "csv file ... not found."\<close>
  | IOError_no_common_subject_ids
      \<comment> \<open>\<^verbatim>\<open>raise IOError\<close> after "no common subject_ids in filename lists"\<close>
  | RuntimeError
      \<comment> \<open>\<^verbatim>\<open>raise RuntimeError\<close> after "please initialise the reader first"\<close>
  | KeyError_modality_not_found
      \<comment> \<open>the \<^verbatim>\<open>KeyError\<close> re-raised by \<^verbatim>\<open>_create_image\<close> after
          "Specified modality names ... not found in config"\<close>
  | KeyError
      \<comment> \<open>any other missing key, and \<^verbatim>\<open>pop\<close> from an empty set\<close>
  | UnboundLocalError
      \<comment> \<open>reading the local name \<^verbatim>\<open>SUPPORTED_INPUT\<close> when no import bound it\<close>
  | AttributeError
      \<comment> \<open>an attribute of \<^verbatim>\<open>None\<close>\<close>
  | TypeError
      \<comment> \<open>\<^verbatim>\<open>len(None)\<close>, \<^verbatim>\<open>None + 1\<close>, iterating over a value that is not iterable\<close>
  | ValueError
      \<comment> \<open>\<^verbatim>\<open>np.random.randint(0)\<close>\<close>

text \<open>Running a fallible function over a list stops at the first exception.\<close>

fun mapM :: "('a \<Rightarrow> error + 'b) \<Rightarrow> 'a list \<Rightarrow> error + 'b list" where
  "mapM f [] = Inr []"
| "mapM f (x # xs) =
     (case f x of
        Inl e \<Rightarrow> Inl e
      | Inr y \<Rightarrow> (case mapM f xs of Inl e \<Rightarrow> Inl e | Inr ys \<Rightarrow> Inr (y # ys)))"

subsection \<open>Element types\<close>

text \<open>
  A numpy dtype, as far as the reader looks at it: its \<^verbatim>\<open>kind\<close> character, and its
  item size, which tells \<^verbatim>\<open>int32\<close> from \<^verbatim>\<open>int64\<close> when the set of distinct dtypes
  is built.
\<close>

datatype np_dtype = Dtype (kind: char) (itemsize: nat)

datatype tf_dtype = tf_int32 | tf_float32

definition NP_TF_DTYPES :: "char \<rightharpoonup> tf_dtype" where
  "NP_TF_DTYPES =
     [CHR ''i'' \<mapsto> tf_int32, CHR ''u'' \<mapsto> tf_int32, CHR ''b'' \<mapsto> tf_int32,
      CHR ''f'' \<mapsto> tf_float32]"

text \<open>
  \<^verbatim>\<open>infer_tf_dtypes(image_object)\<close>. The argument \<open>image_dtype\<close> is
  \<^verbatim>\<open>image_object.dtype\<close>, one dtype per modality of the image. \<^verbatim>\<open>set(...)\<close>
  keeps the distinct dtypes; \<^verbatim>\<open>pop\<close> on a set of one element returns that element and
  raises \<^verbatim>\<open>KeyError\<close> on the empty set. \<^verbatim>\<open>dict.get(k, None)\<close> is the lookup itself.
\<close>

definition infer_tf_dtypes :: "np_dtype list \<Rightarrow> error + tf_dtype option" where
  "infer_tf_dtypes image_dtype =
     (let uniq_np_dtype = remdups image_dtype in
      if length uniq_np_dtype > 1 then Inr (NP_TF_DTYPES (CHR ''f''))
      else (case uniq_np_dtype of
              [] \<Rightarrow> Inl KeyError
            | d # _ \<Rightarrow> Inr (NP_TF_DTYPES (kind d))))"

subsection \<open>Configuration values\<close>

text \<open>
  The values of \<^verbatim>\<open>task_param\<close>: the application name is a string, a field is bound
  to a tuple of modality names, and the other parameters of the application are
  neither. Iterating over a string gives its characters as strings of length one;
  the other values are not iterable.
\<close>

datatype pyval = Str string | Tup "string list" | Other

fun iter :: "pyval \<Rightarrow> error + string list" where
  "iter (Tup ms) = Inr ms"
| "iter (Str s) = Inr (map (\<lambda>c. [c]) s)"
| "iter Other = Inl TypeError"

text \<open>
  One section of \<^verbatim>\<open>data_param\<close>: the properties of a modality. The target spacing
  and the target axis codes are only handed on to the image object, so their types are
  left open.
\<close>

record ('p, 'a) modality_param =
  csv_file :: string
  interp_order :: int
  pixdim :: 'p
  axcodes :: 'a

text \<open>The keyword arguments of \<^verbatim>\<open>ImageFactory.create_instance\<close>.\<close>

record ('v, 'p, 'a) image_properties =
  file_path :: "'v list"
  name :: pyval
  interp_orders :: "int list"
  output_pixdim :: "'p list"
  output_axcodes :: "'a list"

subsection \<open>The merged manifest\<close>

text \<open>
  A csv file is the list of its rows as they are written in it, two fields of text each:
  the subject identifier and the path. The file system is a partial function from file
  names to such lists: \<open>None\<close> where \<^verbatim>\<open>os.path.isfile\<close> is false.

  \<^verbatim>\<open>pandas.read_csv(csv_file, header=None, names=['subject_id', modality_name])\<close> is
  called without \<^verbatim>\<open>dtype\<close>, so pandas infers a type for each of the two columns from
  all the text of the column, and the cells of the frame are values of that type: a
  column of numerals becomes a column of numbers, in which \<^verbatim>\<open>001\<close> and \<^verbatim>\<open>1\<close> are
  the same number, and a column with a cell that is no numeral stays text. The
  inference belongs to pandas. It is the parameter \<open>infer\<close>, from the text of a column
  to its cells; the cells are values of a type \<open>'v\<close> that is left open, and two cells
  are equal when they are the same value to the merge. Failures inside the csv parser
  are not modelled.

  The data frame keeps the column \<^verbatim>\<open>subject_id\<close> apart from the modality columns:
  a row is the subject identifier and one path per modality column, in column order.
  Modality names are taken to differ from the label \<^verbatim>\<open>subject_id\<close>.
\<close>

type_synonym csv_text = "(string \<times> string) list"

type_synonym file_system = "string \<rightharpoonup> csv_text"

type_synonym 'v csv_table = "('v \<times> 'v) list"

record 'v data_frame =
  columns :: "string list"
  rows :: "('v \<times> 'v list) list"

text \<open>The rows of a csv file as pandas reads them: each column through the inference.\<close>

definition read_table :: "(string list \<Rightarrow> 'v list) \<Rightarrow> csv_text \<Rightarrow> 'v csv_table" where
  "read_table infer t = zip (infer (map fst t)) (infer (map snd t))"

definition read_csv :: "(string list \<Rightarrow> 'v list) \<Rightarrow> string \<Rightarrow> csv_text \<Rightarrow> 'v data_frame" where
  "read_csv infer modality_name t =
     \<lparr>columns = [modality_name], rows = map (\<lambda>(s, p). (s, [p])) (read_table infer t)\<rparr>"

text \<open>
  \<^verbatim>\<open>pandas.merge(_file_list, csv_list, on='subject_id')\<close> is an inner join: every row
  of the left frame is paired with every row of the right frame that has the same
  subject identifier, and the columns of the right frame follow those of the left.
  Where subject identifiers repeat, the order in which pandas emits the pairs depends
  on its version; here they come in the order of the left rows.
\<close>

definition merge :: "'v data_frame \<Rightarrow> 'v data_frame \<Rightarrow> 'v data_frame" where
  "merge left right =
     \<lparr>columns = columns left @ columns right,
      rows = concat (map (\<lambda>(s, ps).
                map (\<lambda>(s', ps'). (s, ps @ ps')) (filter (\<lambda>(s', ps'). s' = s) (rows right)))
              (rows left))\<rparr>"

text \<open>\<^verbatim>\<open>DataFrame.size\<close>: the number of cells, rows times columns.\<close>

definition size_df :: "'v data_frame \<Rightarrow> nat" where
  "size_df df = length (rows df) * (1 + length (columns df))"

text \<open>
  \<^verbatim>\<open>DataFrame.loc[idx, mod]\<close>: the frames built here are indexed 0, 1, 2, ...; a
  missing row label or column label is a \<^verbatim>\<open>KeyError\<close>.
\<close>

definition loc :: "'v data_frame \<Rightarrow> nat \<Rightarrow> string \<Rightarrow> error + 'v" where
  "loc df idx modality =
     (if idx < length (rows df) then
        (case rows df ! idx of (s, ps) \<Rightarrow>
           if modality = ''subject_id'' then Inr s
           else (case map_of (zip (columns df) ps) modality of
                   None \<Rightarrow> Inl KeyError
                 | Some p \<Rightarrow> Inr p))
      else Inl KeyError)"

text \<open>
  The body of the loop of \<^verbatim>\<open>_load_and_merge_csv_files\<close> for one modality; \<open>acc\<close>
  is the local variable \<^verbatim>\<open>_file_list\<close>, \<open>None\<close> before the first modality.
\<close>

definition merge_csv_file ::
    "(string list \<Rightarrow> 'v list) \<Rightarrow> file_system \<Rightarrow> 'v data_frame option \<Rightarrow>
     string \<times> ('p, 'a) modality_param \<Rightarrow> error + 'v data_frame option" where
  "merge_csv_file infer fs acc entry =
     (case entry of (modality_name, param) \<Rightarrow>
        (case fs (csv_file param) of
           None \<Rightarrow> Inl (IOError_csv_not_found (csv_file param))
         | Some t \<Rightarrow>
             (let csv_list = read_csv infer modality_name t in
              case acc of
                None \<Rightarrow> Inr (Some csv_list)
              | Some file_list \<Rightarrow> Inr (Some (merge file_list csv_list)))))"

fun merge_csv_files ::
    "(string list \<Rightarrow> 'v list) \<Rightarrow> file_system \<Rightarrow> 'v data_frame option \<Rightarrow>
     (string \<times> ('p, 'a) modality_param) list \<Rightarrow> error + 'v data_frame option" where
  "merge_csv_files infer fs acc [] = Inr acc"
| "merge_csv_files infer fs acc (entry # data_param) =
     (case merge_csv_file infer fs acc entry of
        Inl e \<Rightarrow> Inl e
      | Inr acc' \<Rightarrow> merge_csv_files infer fs acc' data_param)"

definition load_and_merge_csv_files ::
    "(string list \<Rightarrow> 'v list) \<Rightarrow> file_system \<Rightarrow> (string \<times> ('p, 'a) modality_param) list \<Rightarrow>
     error + 'v data_frame" where
  "load_and_merge_csv_files infer fs data_param =
     (case merge_csv_files infer fs None data_param of
        Inl e \<Rightarrow> Inl e
      | Inr None \<Rightarrow> Inl AttributeError
      | Inr (Some file_list) \<Rightarrow>
          if size_df file_list = 0 then Inl IOError_no_common_subject_ids
          else Inr file_list)"

text \<open>
  For stating what the merge returns: the subject identifiers of the manifest of one
  modality as pandas reads them, and those that the manifests of all modalities have in
  common.
\<close>

definition subject_ids ::
    "(string list \<Rightarrow> 'v list) \<Rightarrow> file_system \<Rightarrow> ('p, 'a) modality_param \<Rightarrow> 'v set" where
  "subject_ids infer fs param =
     (case fs (csv_file param) of None \<Rightarrow> {} | Some t \<Rightarrow> fst ` set (read_table infer t))"

definition common_subject_ids ::
    "(string list \<Rightarrow> 'v list) \<Rightarrow> file_system \<Rightarrow> (string \<times> ('p, 'a) modality_param) list \<Rightarrow>
     'v set" where
  "common_subject_ids infer fs data_param =
     (\<Inter>(m, param) \<in> set data_param. subject_ids infer fs param)"

text \<open>
  A row of a frame agrees with the tables read so far when it has one path per table
  and each path is the one the table of that position associates with the subject of
  the row.
\<close>

definition agrees :: "'v csv_table list \<Rightarrow> 'v \<times> 'v list \<Rightarrow> bool" where
  "agrees ts row \<longleftrightarrow> (case row of (s, ps) \<Rightarrow>
       length ps = length ts \<and> (\<forall>i < length ts. map_of (ts ! i) s = Some (ps ! i)))"

subsection \<open>The reader\<close>

text \<open>
  The attributes of an \<^verbatim>\<open>ImageReader\<close>. \<open>output_fields\<close> is the tuple behind the
  property of that name; its setter passes the assigned sequence of strings through
  \<^verbatim>\<open>make_input_tuple\<close>, which is defined in another module and turns it into a tuple,
  the same list here. The memo \<^verbatim>\<open>_shapes\<close> is left out with the property
  \<^verbatim>\<open>shapes\<close>, which needs the shape of decoded arrays.
\<close>

record ('v, 'img) reader =
  p_file_list :: "'v data_frame option"
  output_fields :: "string list"
  p_input_sources :: "(string \<times> pyval) list option"
  p_dtypes :: "(string \<times> tf_dtype option) list option"
  output_list :: "(string \<times> 'img) list list option"
  current_id :: "int option"

text \<open>\<^verbatim>\<open>ImageReader.__init__(output_fields)\<close>\<close>

definition ImageReader :: "string list \<Rightarrow> ('v, 'img) reader" where
  "ImageReader fields_tuple =
     \<lparr>p_file_list = None, output_fields = fields_tuple, p_input_sources = None,
      p_dtypes = None, output_list = None, current_id = None\<rparr>"

text \<open>
  The property \<^verbatim>\<open>input_sources\<close>: \<^verbatim>\<open>not self._input_sources\<close> holds for \<^verbatim>\<open>None\<close>
  and for the empty dictionary.
\<close>

definition input_sources :: "('v, 'img) reader \<Rightarrow> error + (string \<times> pyval) list" where
  "input_sources r =
     (case p_input_sources r of
        None \<Rightarrow> Inl RuntimeError
      | Some [] \<Rightarrow> Inl RuntimeError
      | Some src \<Rightarrow> Inr src)"

text \<open>
  \<^verbatim>\<open>_create_image(idx, modalities, data_param)\<close>. The four comprehensions run inside
  the \<^verbatim>\<open>try\<close>; its handler turns every \<^verbatim>\<open>KeyError\<close> into the one raised after the
  fatal log and lets other exceptions pass. \<^verbatim>\<open>self._file_list.loc\<close> is evaluated
  once per modality, so an absent file list is only noticed when there is a modality.
\<close>

definition key_error_handler :: "error + 'b \<Rightarrow> error + 'b" where
  "key_error_handler res =
     (case res of
        Inl KeyError \<Rightarrow> Inl KeyError_modality_not_found
      | _ \<Rightarrow> res)"

definition lookup_param ::
    "(string \<times> ('p, 'a) modality_param) list \<Rightarrow> string \<Rightarrow>
     error + ('p, 'a) modality_param" where
  "lookup_param data_param modality =
     (case map_of data_param modality of None \<Rightarrow> Inl KeyError | Some p \<Rightarrow> Inr p)"

definition file_list_loc :: "('v, 'img) reader \<Rightarrow> nat \<Rightarrow> string \<Rightarrow> error + 'v" where
  "file_list_loc r idx modality =
     (case p_file_list r of
        None \<Rightarrow> Inl AttributeError
      | Some file_list \<Rightarrow> loc file_list idx modality)"

definition create_image ::
    "(('v, 'p, 'a) image_properties \<Rightarrow> 'img) \<Rightarrow> ('v, 'img) reader \<Rightarrow> nat \<Rightarrow> pyval \<Rightarrow>
     (string \<times> ('p, 'a) modality_param) list \<Rightarrow> error + 'img" where
  "create_image create_instance r idx modalities data_param =
     (case key_error_handler
        (case iter modalities of
           Inl e \<Rightarrow> Inl e
         | Inr mods \<Rightarrow>
             (case mapM (file_list_loc r idx) mods of
                Inl e \<Rightarrow> Inl e
              | Inr paths \<Rightarrow>
                  (case mapM (lookup_param data_param) mods of
                     Inl e \<Rightarrow> Inl e
                   | Inr params \<Rightarrow>
                       Inr \<lparr>file_path = paths, name = modalities,
                            interp_orders = map interp_order params,
                            output_pixdim = map pixdim params,
                            output_axcodes = map axcodes params\<rparr>)))
      of
        Inl e \<Rightarrow> Inl e
      | Inr image_properties \<Rightarrow> Inr (create_instance image_properties))"

text \<open>
  \<^verbatim>\<open>_filename_to_image_list(data_param)\<close>. For one row, the dictionary comprehension
  reads the property \<^verbatim>\<open>input_sources\<close> and builds one image per field; every value
  \<^verbatim>\<open>self.input_sources[field]\<close> is the one paired with the key. The loop runs over
  \<^verbatim>\<open>range(len(self._file_list))\<close>.
\<close>

definition row_dict ::
    "(('v, 'p, 'a) image_properties \<Rightarrow> 'img) \<Rightarrow> ('v, 'img) reader \<Rightarrow>
     (string \<times> ('p, 'a) modality_param) list \<Rightarrow> nat \<Rightarrow> error + (string \<times> 'img) list" where
  "row_dict create_instance r data_param row_id =
     (case input_sources r of
        Inl e \<Rightarrow> Inl e
      | Inr src \<Rightarrow>
          mapM (\<lambda>(field, modalities).
                  case create_image create_instance r row_id modalities data_param of
                    Inl e \<Rightarrow> Inl e
                  | Inr img \<Rightarrow> Inr (field, img))
               src)"

definition filename_to_image_list ::
    "(('v, 'p, 'a) image_properties \<Rightarrow> 'img) \<Rightarrow> ('v, 'img) reader \<Rightarrow>
     (string \<times> ('p, 'a) modality_param) list \<Rightarrow> error + (string \<times> 'img) list list" where
  "filename_to_image_list create_instance r data_param =
     (case p_file_list r of
        None \<Rightarrow> Inl TypeError
      | Some file_list \<Rightarrow>
          mapM (row_dict create_instance r data_param) [0 ..< length (rows file_list)])"

text \<open>
  \<^verbatim>\<open>initialise_reader(data_param, task_param)\<close>. The two imports bind
  \<^verbatim>\<open>SUPPORTED_INPUT\<close> to a constant of the segmentation or of the GAN application;
  the constants are the parameters \<open>SUPPORTED_seg\<close> and \<open>SUPPORTED_gan\<close>. For any
  other application name the local name stays unbound, which is noticed only where it
  is read: when \<^verbatim>\<open>self.output_fields\<close> is empty.

  The two comprehensions that follow select the items of \<^verbatim>\<open>task_param\<close> whose key
  is in \<^verbatim>\<open>self.output_fields\<close> and whose value is not the empty tuple: the new
  \<^verbatim>\<open>output_fields\<close> are their keys, and \<^verbatim>\<open>_input_sources\<close> maps each of these
  keys to \<^verbatim>\<open>task_param[field]\<close>, the value of the same item.
\<close>

definition supported_input :: "string list \<Rightarrow> string list \<Rightarrow> pyval \<Rightarrow> string list option" where
  "supported_input SUPPORTED_seg SUPPORTED_gan app_type =
     (if app_type = Str ''net_segmentation.py'' then Some SUPPORTED_seg
      else if app_type = Str ''net_gan.py'' then Some SUPPORTED_gan
      else None)"

definition default_output_fields :: "string list option \<Rightarrow> ('v, 'img) reader \<Rightarrow> error + ('v, 'img) reader" where
  "default_output_fields SUPPORTED_INPUT r =
     (if output_fields r = [] then
        (case SUPPORTED_INPUT of
           None \<Rightarrow> Inl UnboundLocalError
         | Some fields_tuple \<Rightarrow> Inr (r\<lparr>output_fields := fields_tuple\<rparr>))
      else Inr r)"

definition select_fields :: "(string \<times> pyval) list \<Rightarrow> ('v, 'img) reader \<Rightarrow> ('v, 'img) reader" where
  "select_fields task_param r =
     (let selected = filter (\<lambda>(field_name, v).
                               field_name \<in> set (output_fields r) \<and> v \<noteq> Tup [])
                            task_param
      in r\<lparr>output_fields := map fst selected, p_input_sources := Some selected\<rparr>)"

definition initialise_reader ::
    "(string list \<Rightarrow> 'v list) \<Rightarrow> file_system \<Rightarrow> string list \<Rightarrow> string list \<Rightarrow> (('v, 'p, 'a) image_properties \<Rightarrow> 'img) \<Rightarrow>
     (string \<times> ('p, 'a) modality_param) list \<Rightarrow> (string \<times> pyval) list \<Rightarrow> ('v, 'img) reader \<Rightarrow>
     (error + unit) \<times> ('v, 'img) reader" where
  "initialise_reader infer fs SUPPORTED_seg SUPPORTED_gan create_instance data_param task_param
     r =
     (case map_of task_param ''name'' of
        None \<Rightarrow> (Inl KeyError, r)
      | Some app_type \<Rightarrow>
          (case load_and_merge_csv_files infer fs data_param of
             Inl e \<Rightarrow> (Inl e, r)
           | Inr file_list \<Rightarrow>
               (let r1 = r\<lparr>p_file_list := Some file_list\<rparr> in
                case default_output_fields
                       (supported_input SUPPORTED_seg SUPPORTED_gan app_type) r1 of
                  Inl e \<Rightarrow> (Inl e, r1)
                | Inr r2 \<Rightarrow>
                    (let r3 = select_fields task_param r2 in
                     case filename_to_image_list create_instance r3 data_param of
                       Inl e \<Rightarrow> (Inl e, r3)
                     | Inr volume_list \<Rightarrow>
                         (let r4 = r3\<lparr>output_list := Some volume_list,
                                     current_id := Some (- 1)\<rparr> in
                          case input_sources r4 of
                            Inl e \<Rightarrow> (Inl e, r4)
                          | Inr _ \<Rightarrow> (Inr (), r4))))))"

text \<open>
  \<^verbatim>\<open>np.random.randint(n)\<close> draws from 0, ..., n - 1 and raises \<^verbatim>\<open>ValueError\<close> when
  there is nothing to draw from. The draw is a function of the state of the generator,
  the parameter \<open>seed\<close>; every index below \<open>n\<close> is drawn for some seed.
\<close>

definition randint :: "nat \<Rightarrow> nat \<Rightarrow> error + nat" where
  "randint n seed = (if n = 0 then Inl ValueError else Inr (seed mod n))"

text \<open>
  \<^verbatim>\<open>layer_op(shuffle)\<close>. \<open>output_image\<close> is \<open>None\<close> as in the source, or the
  selected dictionary; \<^verbatim>\<open>if output_image:\<close> is false for \<open>None\<close> and for the empty
  dictionary. In the sequential branch the cursor is written before the list is
  looked at, and \<^verbatim>\<open>idx >= 0 and ...\<close> does not evaluate \<^verbatim>\<open>len\<close> for a negative
  index.
\<close>

type_synonym 'd layer_result = "int option \<times> (string \<times> 'd) list option"

definition return_image ::
    "('img \<Rightarrow> 'd) \<Rightarrow> int \<Rightarrow> (string \<times> 'img) list option \<Rightarrow> 'd layer_result" where
  "return_image get_data idx output_image =
     (case output_image of
        None \<Rightarrow> (None, None)
      | Some [] \<Rightarrow> (None, None)
      | Some image_dict \<Rightarrow>
          (Some idx, Some (map (\<lambda>(field, img). (field, get_data img)) image_dict)))"

definition layer_op ::
    "('img \<Rightarrow> 'd) \<Rightarrow> bool \<Rightarrow> nat \<Rightarrow> ('v, 'img) reader \<Rightarrow> (error + 'd layer_result) \<times> ('v, 'img) reader" where
  "layer_op get_data shuffle seed r =
     (if shuffle then
        (case output_list r of
           None \<Rightarrow> (Inl TypeError, r)
         | Some images \<Rightarrow>
             (case randint (length images) seed of
                Inl e \<Rightarrow> (Inl e, r)
              | Inr idx \<Rightarrow>
                  (Inr (return_image get_data (int idx) (Some (images ! idx))), r)))
      else
        (case current_id r of
           None \<Rightarrow> (Inl TypeError, r)
         | Some c \<Rightarrow>
             (let idx = c + 1; r' = r\<lparr>current_id := Some idx\<rparr> in
              if idx \<ge> 0 then
                (case output_list r' of
                   None \<Rightarrow> (Inl TypeError, r')
                 | Some images \<Rightarrow>
                     if idx < int (length images)
                     then (Inr (return_image get_data idx (Some (images ! nat idx))), r')
                     else (Inr (return_image get_data idx None), r'))
              else (Inr (return_image get_data idx None), r'))))"

text \<open>
  The property \<^verbatim>\<open>dtypes\<close>: \<^verbatim>\<open>not self.output_list\<close> holds for \<^verbatim>\<open>None\<close> and for
  the empty list, \<^verbatim>\<open>not self._dtypes\<close> for \<^verbatim>\<open>None\<close> and for the empty dictionary.
  The memo is written only when every field has been inferred.
\<close>

definition field_dtype ::
    "('img \<Rightarrow> np_dtype list) \<Rightarrow> (string \<times> 'img) list \<Rightarrow> string \<Rightarrow>
     error + string \<times> tf_dtype option" where
  "field_dtype dtype random_image field =
     (case map_of random_image field of
        None \<Rightarrow> Inl KeyError
      | Some img \<Rightarrow>
          (case infer_tf_dtypes (dtype img) of
             Inl e \<Rightarrow> Inl e
           | Inr t \<Rightarrow> Inr (field, t)))"

definition memo_empty :: "'b list option \<Rightarrow> bool" where
  "memo_empty m = (case m of None \<Rightarrow> True | Some xs \<Rightarrow> xs = [])"

definition dtypes ::
    "('img \<Rightarrow> np_dtype list) \<Rightarrow> ('v, 'img) reader \<Rightarrow>
     (error + (string \<times> tf_dtype option) list) \<times> ('v, 'img) reader" where
  "dtypes dtype r =
     (case output_list r of
        None \<Rightarrow> (Inl RuntimeError, r)
      | Some [] \<Rightarrow> (Inl RuntimeError, r)
      | Some (random_image # _) \<Rightarrow>
          if memo_empty (p_dtypes r) then
            (case mapM (field_dtype dtype random_image) (output_fields r) of
               Inl e \<Rightarrow> (Inl e, r)
             | Inr d \<Rightarrow> (Inr d, r\<lparr>p_dtypes := Some d\<rparr>))
          else (case p_dtypes r of
                  None \<Rightarrow> (Inl RuntimeError, r)
                | Some d \<Rightarrow> (Inr d, r)))"

text \<open>
  A caller that reads sequentially \<open>k\<close> times, collecting what each call returns.
\<close>

fun sequential_calls ::
    "('img \<Rightarrow> 'd) \<Rightarrow> nat \<Rightarrow> ('v, 'img) reader \<Rightarrow> (error + 'd layer_result) list \<times> ('v, 'img) reader" where
  "sequential_calls get_data 0 r = ([], r)"
| "sequential_calls get_data (Suc k) r =
     (case layer_op get_data False 0 r of
        (res, r') \<Rightarrow>
          (case sequential_calls get_data k r' of (ress, r'') \<Rightarrow> (res # ress, r'')))"

text \<open>
  The states of an initialised reader: the state a successful \<^verbatim>\<open>initialise_reader\<close>
  leaves, and every state reached from there by calls of \<^verbatim>\<open>layer_op\<close> and reads of
  \<^verbatim>\<open>dtypes\<close>.
\<close>

inductive initialised ::
    "(('v, 'p, 'a) image_properties \<Rightarrow> 'img) \<Rightarrow> ('img \<Rightarrow> 'd) \<Rightarrow> ('img \<Rightarrow> np_dtype list) \<Rightarrow>
     ('v, 'img) reader \<Rightarrow> bool"
  for create_instance :: "('v, 'p, 'a) image_properties \<Rightarrow> 'img"
    and get_data :: "'img \<Rightarrow> 'd"
    and dtype :: "'img \<Rightarrow> np_dtype list"
  where
    after_initialise_reader:
      "initialise_reader infer fs SUPPORTED_seg SUPPORTED_gan create_instance data_param task_param r0
         = (Inr (), r) \<Longrightarrow>
       initialised create_instance get_data dtype r"
  | after_layer_op:
      "initialised create_instance get_data dtype r \<Longrightarrow>
       layer_op get_data shuffle seed r = (res, r') \<Longrightarrow>
       initialised create_instance get_data dtype r'"
  | after_dtypes:
      "initialised create_instance get_data dtype r \<Longrightarrow>
       dtypes dtype r = (res', r') \<Longrightarrow>
       initialised create_instance get_data dtype r'"

text \<open>
  What every state of an initialised reader satisfies: there is a list of images, it is
  not empty, none of its dictionaries is empty, and the cursor is an integer from -1 on.
\<close>

definition ready :: "('v, 'img) reader \<Rightarrow> bool" where
  "ready r \<longleftrightarrow> (\<exists>images c. output_list r = Some images \<and> images \<noteq> [] \<and> [] \<notin> set images
                   \<and> current_id r = Some c \<and> - 1 \<le> c)"

subsection \<open>A worked example\<close>

text \<open>
  Two modalities \<open>A\<close> and \<open>B\<close> whose manifests share the subjects \<open>s1\<close> and \<open>s2\<close>,
  a segmentation task with the field \<open>image\<close> made of both modalities and the field
  \<open>label\<close> switched off, and a reader constructed without explicit output fields.
  No column of these manifests is a column of numerals, so pandas reads every cell as
  the text written: the inference is \<open>text_columns\<close>. The image factory of the
  example returns its keyword arguments.
\<close>

definition text_columns :: "string list \<Rightarrow> string list" where
  "text_columns col = col"

definition example_fs :: file_system where
  "example_fs =
     [''A.csv'' \<mapsto> [(''s1'', ''a1.img''), (''s2'', ''a2.img'')],
      ''B.csv'' \<mapsto> [(''s2'', ''b2.img''), (''s1'', ''b1.img''), (''s3'', ''b3.img'')]]"

definition example_data_param :: "(string \<times> (nat list, string) modality_param) list" where
  "example_data_param =
     [(''A'', \<lparr>csv_file = ''A.csv'', interp_order = 3, pixdim = [1, 1, 1], axcodes = ''RAS''\<rparr>),
      (''B'', \<lparr>csv_file = ''B.csv'', interp_order = 0, pixdim = [2, 2, 2], axcodes = ''LPS''\<rparr>)]"

definition example_task_param :: "(string \<times> pyval) list" where
  "example_task_param =
     [(''name'', Str ''net_segmentation.py''), (''image'', Tup [''A'', ''B'']), (''label'', Tup [])]"

definition SUPPORTED_INPUT_seg :: "string list" where
  "SUPPORTED_INPUT_seg = [''image'', ''label'', ''weight'', ''sampler'']"

definition SUPPORTED_INPUT_gan :: "string list" where
  "SUPPORTED_INPUT_gan = [''image'', ''conditioning'']"

text \<open>
  Two more task parameters for the same manifests: an application name that is neither
  of the two known ones, and a segmentation task that binds both \<open>image\<close> and
  \<open>label\<close>.
\<close>

definition other_task_param :: "(string \<times> pyval) list" where
  "other_task_param =
     [(''name'', Str ''net_other.py''), (''image'', Tup [''A'', ''B'']), (''label'', Tup [])]"

definition both_task_param :: "(string \<times> pyval) list" where
  "both_task_param =
     [(''name'', Str ''net_segmentation.py''), (''image'', Tup [''A'']), (''label'', Tup [''B''])]"


definition example_images :: "(string \<times> (string, nat list, string) image_properties) list list" where
  "example_images =
     [[(''image'',
        \<lparr>file_path = [''a1.img'', ''b1.img''], name = Tup [''A'', ''B''],
         interp_orders = [3, 0], output_pixdim = [[1, 1, 1], [2, 2, 2]],
         output_axcodes = [''RAS'', ''LPS'']\<rparr>)],
      [(''image'',
        \<lparr>file_path = [''a2.img'', ''b2.img''], name = Tup [''A'', ''B''],
         interp_orders = [3, 0], output_pixdim = [[1, 1, 1], [2, 2, 2]],
         output_axcodes = [''RAS'', ''LPS'']\<rparr>)]]"

definition example_reader :: "(string, (string, nat list, string) image_properties) reader" where
  "example_reader =
     \<lparr>p_file_list = Some \<lparr>columns = [''A'', ''B''],
                           rows = [(''s1'', [''a1.img'', ''b1.img'']),
                                   (''s2'', [''a2.img'', ''b2.img''])]\<rparr>,
      output_fields = [''image''],
      p_input_sources = Some [(''image'', Tup [''A'', ''B''])],
      p_dtypes = None,
      output_list = Some example_images,
      current_id = Some (- 1)\<rparr>"

text \<open>Manifests in which the first modality lists the subject \<open>s1\<close> twice.\<close>

definition duplicate_fs :: file_system where
  "duplicate_fs =
     [''A.csv'' \<mapsto> [(''s1'', ''a1.img''), (''s1'', ''a1_repeat.img'')],
      ''B.csv'' \<mapsto> [(''s1'', ''b1.img'')]]"

text \<open>
  Manifests with numerals as subject identifiers. Their cells are numbers or text; the
  inference of these examples reads a column as numbers when every cell of it is a
  decimal numeral and as text otherwise, as pandas does with such columns. In
  \<open>mixed_fs\<close> the identifiers of \<open>A\<close> stay text because of \<open>x\<close>, and those of \<open>B\<close>
  are numbers; in \<open>padded_fs\<close> the identifiers \<open>001\<close> and \<open>1\<close> are the same number.
\<close>

datatype cell = Number int | Text string

definition is_numeral :: "string \<Rightarrow> bool" where
  "is_numeral c \<longleftrightarrow> c \<noteq> [] \<and> (\<forall>d \<in> set c. d \<in> set ''0123456789'')"

definition digit :: "char \<Rightarrow> int" where
  "digit d = (if d = CHR ''1'' then 1 else if d = CHR ''2'' then 2 else if d = CHR ''3'' then 3
     else if d = CHR ''4'' then 4 else if d = CHR ''5'' then 5 else if d = CHR ''6'' then 6
     else if d = CHR ''7'' then 7 else if d = CHR ''8'' then 8 else if d = CHR ''9'' then 9
     else 0)"

definition number :: "string \<Rightarrow> int" where
  "number c = foldl (\<lambda>n d. 10 * n + digit d) 0 c"

definition numeral_columns :: "string list \<Rightarrow> cell list" where
  "numeral_columns col =
     (if \<forall>c \<in> set col. is_numeral c then map (\<lambda>c. Number (number c)) col else map Text col)"


definition padded_fs :: file_system where
  "padded_fs =
     [''A.csv'' \<mapsto> [(''001'', ''a1.img'')],
      ''B.csv'' \<mapsto> [(''1'', ''b1.img'')]]"

text \<open>Task parameters that switch every field off.\<close>

definition none_task_param :: "(string \<times> pyval) list" where
  "none_task_param =
     [(''name'', Str ''net_segmentation.py''), (''image'', Tup []), (''label'', Tup [])]"

text \<open>
  The reader that \<open>both_task_param\<close> and the output field \<open>image\<close> given to the
  constructor lead to.
\<close>

definition both_reader :: "(string, (string, nat list, string) image_properties) reader" where
  "both_reader =
     \<lparr>p_file_list = Some \<lparr>columns = [''A'', ''B''],
                           rows = [(''s1'', [''a1.img'', ''b1.img'']),
                                   (''s2'', [''a2.img'', ''b2.img''])]\<rparr>,
      output_fields = [''image''],
      p_input_sources = Some [(''image'', Tup [''A''])],
      p_dtypes = None,
      output_list =
        Some [[(''image'',
                \<lparr>file_path = [''a1.img''], name = Tup [''A''], interp_orders = [3],
                 output_pixdim = [[1, 1, 1]], output_axcodes = [''RAS'']\<rparr>)],
              [(''image'',
                \<lparr>file_path = [''a2.img''], name = Tup [''A''], interp_orders = [3],
                 output_pixdim = [[1, 1, 1]], output_axcodes = [''RAS'']\<rparr>)]],
      current_id = Some (- 1)\<rparr>"

text \<open>
  The reader that a failed initialisation with no selected field leaves: the merged
  manifest is stored, no field is selected, and there is neither a list of images nor
  a cursor.
\<close>

definition unselected_reader :: "(string, (string, nat list, string) image_properties) reader" where
  "unselected_reader =
     \<lparr>p_file_list = Some \<lparr>columns = [''A'', ''B''],
                           rows = [(''s1'', [''a1.img'', ''b1.img'']),
                                   (''s2'', [''a2.img'', ''b2.img''])]\<rparr>,
      output_fields = [],
      p_input_sources = Some [],
      p_dtypes = None,
      output_list = None,
      current_id = None\<rparr>"

text \<open>
  A reader whose field \<open>image\<close> names a modality \<open>C\<close> that has no section in the
  data parameters.
\<close>

definition unknown_reader :: "(string, (string, nat list, string) image_properties) reader" where
  "unknown_reader = example_reader\<lparr>p_input_sources := Some [(''image'', Tup [''A'', ''C''])]\<rparr>"

section \<open>Properties\<close>

subsection \<open>Results of the monadic map\<close>

lemma mapM_Inr_conv:
  "mapM f xs = Inr ys \<longleftrightarrow> length ys = length xs \<and> (\<forall>i < length xs. f (xs ! i) = Inr (ys ! i))"
proof (induction xs arbitrary: ys)
  case Nil
  then show ?case by auto
next
  case (Cons x xs)
  show ?case
  proof (cases ys)
    case Nil
    then show ?thesis by (auto split: sum.splits)
  next
    case (Cons y ys')
    then show ?thesis using Cons.IH[of ys']
      by (auto split: sum.splits simp: nth_Cons less_Suc_eq_0_disj all_conj_distrib split: nat.splits)
  qed
qed

lemma mapM_Inl: "mapM f xs = Inl e \<Longrightarrow> \<exists>x \<in> set xs. f x = Inl e"
  by (induction xs) (auto split: sum.splits)

subsection \<open>The example runs\<close>

lemma example_merge:
  "load_and_merge_csv_files text_columns example_fs example_data_param =
     Inr \<lparr>columns = [''A'', ''B''],
          rows = [(''s1'', [''a1.img'', ''b1.img'']), (''s2'', [''a2.img'', ''b2.img''])]\<rparr>"
  by (simp add: load_and_merge_csv_files_def merge_csv_file_def example_fs_def
      example_data_param_def read_csv_def read_table_def text_columns_def merge_def size_df_def)

lemma example_initialise:
  "initialise_reader text_columns example_fs SUPPORTED_INPUT_seg SUPPORTED_INPUT_gan (\<lambda>p. p) example_data_param
     example_task_param (ImageReader []) = (Inr (), example_reader)"
  unfolding initialise_reader_def example_merge
  by (simp add: example_task_param_def supported_input_def default_output_fields_def
      ImageReader_def SUPPORTED_INPUT_seg_def select_fields_def filename_to_image_list_def
      row_dict_def input_sources_def create_image_def key_error_handler_def file_list_loc_def
      loc_def lookup_param_def example_data_param_def example_reader_def example_images_def
      upt_rec)

lemma other_initialise:
  "initialise_reader text_columns example_fs SUPPORTED_INPUT_seg SUPPORTED_INPUT_gan (\<lambda>p. p)
     example_data_param other_task_param (ImageReader [''image'']) = (Inr (), example_reader)"
  unfolding initialise_reader_def example_merge
  by (simp add: other_task_param_def supported_input_def default_output_fields_def
      ImageReader_def select_fields_def filename_to_image_list_def
      row_dict_def input_sources_def create_image_def key_error_handler_def file_list_loc_def
      loc_def lookup_param_def example_data_param_def example_reader_def example_images_def
      upt_rec)

subsection \<open>Element type inference\<close>

lemma remdups_singleton: "set xs = {d} \<Longrightarrow> remdups xs = [d]"
proof -
  assume a: "set xs = {d}"
  have "length (remdups xs) = 1" using a by (simp add: length_remdups_card_conv)
  moreover have "set (remdups xs) = {d}" using a by simp
  ultimately show ?thesis by (cases "remdups xs") auto
qed

lemma mapM_field_dtype:
  "mapM (field_dtype dtype e) fs = Inr m \<Longrightarrow>
     map fst m = fs \<and> (\<forall>(field, t) \<in> set m. \<exists>img. map_of e field = Some img
                 \<and> infer_tf_dtypes (dtype img) = Inr t)"
proof (induction fs arbitrary: m)
  case Nil
  then show ?case by auto
next
  case (Cons f fs)
  from Cons.prems obtain x m' where x: "field_dtype dtype e f = Inr x"
    and m': "mapM (field_dtype dtype e) fs = Inr m'" and m: "m = x # m'"
    by (auto split: sum.splits)
  from x have "fst x = f" "\<exists>img. map_of e f = Some img \<and> infer_tf_dtypes (dtype img) = Inr (snd x)"
    by (auto simp: field_dtype_def split: option.splits sum.splits)
  with Cons.IH[OF m'] m show ?case by (cases x) auto
qed

lemma NP_TF_DTYPES_None:
  "k \<notin> {CHR ''i'', CHR ''u'', CHR ''b'', CHR ''f''} \<Longrightarrow> NP_TF_DTYPES k = None"
  by (simp add: NP_TF_DTYPES_def)

text \<open>
  Claim C6. Whenever the dtype of an image holds more than one distinct element-type
  code, \<open>infer_tf_dtypes\<close> returns the 32-bit floating-point type; when it holds a
  single code, the result is the entry of the table \<open>NP_TF_DTYPES\<close> for the kind of
  that code, where the kinds \<open>i\<close>, \<open>u\<close> and \<open>b\<close> map to the 32-bit integer type and the
  kind \<open>f\<close> to the 32-bit floating-point type. The property \<open>dtypes\<close>, when it
  computes its memo, returns one entry per output field, each the inference for the
  image of that field in the first entry of the list of images.
\<close>

theorem infer_tf_dtypes_promotion:
  "(1 < card (set image_dtype) \<longrightarrow> infer_tf_dtypes image_dtype = Inr (Some tf_float32))
   \<and> (set image_dtype = {d} \<longrightarrow> infer_tf_dtypes image_dtype = Inr (NP_TF_DTYPES (kind d)))
   \<and> NP_TF_DTYPES (CHR ''i'') = Some tf_int32
   \<and> NP_TF_DTYPES (CHR ''u'') = Some tf_int32
   \<and> NP_TF_DTYPES (CHR ''b'') = Some tf_int32
   \<and> NP_TF_DTYPES (CHR ''f'') = Some tf_float32
   \<and> (output_list r = Some (random_image # rest) \<and> memo_empty (p_dtypes r)
        \<and> fst (dtypes dtype r) = Inr m \<longrightarrow>
          map fst m = output_fields r
          \<and> (\<forall>(field, t) \<in> set m. \<exists>img. map_of random_image field = Some img
                 \<and> infer_tf_dtypes (dtype img) = Inr t))"
proof -
  have tab: "NP_TF_DTYPES (CHR ''i'') = Some tf_int32" "NP_TF_DTYPES (CHR ''u'') = Some tf_int32"
    "NP_TF_DTYPES (CHR ''b'') = Some tf_int32" "NP_TF_DTYPES (CHR ''f'') = Some tf_float32"
    by (simp_all add: NP_TF_DTYPES_def)
  have many: "1 < card (set image_dtype) \<longrightarrow> infer_tf_dtypes image_dtype = Inr (Some tf_float32)"
    by (simp add: infer_tf_dtypes_def Let_def length_remdups_card_conv tab)
  have one: "set image_dtype = {d} \<longrightarrow> infer_tf_dtypes image_dtype = Inr (NP_TF_DTYPES (kind d))"
    by (auto simp: infer_tf_dtypes_def remdups_singleton)
  have memo: "output_list r = Some (random_image # rest) \<and> memo_empty (p_dtypes r)
        \<and> fst (dtypes dtype r) = Inr m \<longrightarrow>
          map fst m = output_fields r
          \<and> (\<forall>(field, t) \<in> set m. \<exists>img. map_of random_image field = Some img
                 \<and> infer_tf_dtypes (dtype img) = Inr t)"
  proof (intro impI, elim conjE)
    assume ol: "output_list r = Some (random_image # rest)" and me: "memo_empty (p_dtypes r)"
      and res: "fst (dtypes dtype r) = Inr m"
    from ol me res have mm: "mapM (field_dtype dtype random_image) (output_fields r) = Inr m"
      by (auto simp: dtypes_def split: sum.splits)
    from mapM_field_dtype[OF mm]
    show "map fst m = output_fields r
          \<and> (\<forall>(field, t) \<in> set m. \<exists>img. map_of random_image field = Some img
                 \<and> infer_tf_dtypes (dtype img) = Inr t)" .
  qed
  from tab many one memo show ?thesis by blast
qed

theorem infer_tf_dtypes_promotion_witness:
  "infer_tf_dtypes [Dtype (CHR ''i'') 2, Dtype (CHR ''f'') 4, Dtype (CHR ''i'') 2]
     = Inr (Some tf_float32)
   \<and> infer_tf_dtypes [Dtype (CHR ''u'') 1, Dtype (CHR ''u'') 1] = Inr (Some tf_int32)
   \<and> fst (dtypes (\<lambda>img. img)
         \<lparr>p_file_list = (None :: string data_frame option), output_fields = [''image''], p_input_sources = None,
          p_dtypes = None, output_list = Some [[(''image'', [Dtype (CHR ''b'') 1])]],
          current_id = None\<rparr>) = Inr [(''image'', Some tf_int32)]"
proof -
  let ?mixed = "[Dtype (CHR ''i'') 2, Dtype (CHR ''f'') 4, Dtype (CHR ''i'') 2]"
  let ?same = "[Dtype (CHR ''u'') 1, Dtype (CHR ''u'') 1]"
  let ?r = "\<lparr>p_file_list = (None :: string data_frame option), output_fields = [''image''], p_input_sources = None,
          p_dtypes = None, output_list = Some [[(''image'', [Dtype (CHR ''b'') 1])]],
          current_id = None\<rparr> :: (string, np_dtype list) reader"
  let ?m = "[(''image'', Some tf_int32)]"
  have c: "1 < card (set ?mixed)"
    unfolding length_remdups_card_conv[symmetric] by simp
  have s: "set ?same = {Dtype (CHR ''u'') 1}" by simp
  have d: "output_list ?r = Some ([(''image'', [Dtype (CHR ''b'') 1])] # [])
           \<and> memo_empty (p_dtypes ?r) \<and> fst (dtypes (\<lambda>img. img) ?r) = Inr ?m"
    by (simp add: memo_empty_def dtypes_def field_dtype_def infer_tf_dtypes_def NP_TF_DTYPES_def)
  have 1: "infer_tf_dtypes ?mixed = Inr (Some tf_float32)"
    using infer_tf_dtypes_promotion[of ?mixed, THEN conjunct1] c by (rule mp)
  have "infer_tf_dtypes ?same = Inr (NP_TF_DTYPES (kind (Dtype (CHR ''u'') 1)))"
    using infer_tf_dtypes_promotion[of ?same "Dtype (CHR ''u'') 1", THEN conjunct2, THEN conjunct1] s
    by (rule mp)
  then have 2: "infer_tf_dtypes ?same = Inr (Some tf_int32)"
    by (simp add: NP_TF_DTYPES_def)
  have 3: "map fst ?m = output_fields ?r
          \<and> (\<forall>(field, t) \<in> set ?m. \<exists>img. map_of [(''image'', [Dtype (CHR ''b'') 1])] field = Some img
                 \<and> infer_tf_dtypes ((\<lambda>img. img) img) = Inr t)"
    using infer_tf_dtypes_promotion[of _ _ ?r "[(''image'', [Dtype (CHR ''b'') 1])]" "[]" "\<lambda>img. img" ?m,
        THEN conjunct2, THEN conjunct2, THEN conjunct2, THEN conjunct2, THEN conjunct2, THEN conjunct2] d
    by (rule mp)
  from 1 2 d show ?thesis by blast
qed

text \<open>
  Claim C10. For a single element-type code whose kind is none of \<open>i\<close>, \<open>u\<close>, \<open>b\<close>, \<open>f\<close>,
  \<open>infer_tf_dtypes\<close> returns \<open>None\<close> as a value and raises nothing, and the map
  returned by the property \<open>dtypes\<close> then holds \<open>None\<close> for a field with such an
  image.
\<close>

theorem infer_tf_dtypes_unknown_kind:
  "(set image_dtype = {d} \<and> kind d \<notin> {CHR ''i'', CHR ''u'', CHR ''b'', CHR ''f''} \<longrightarrow>
      infer_tf_dtypes image_dtype = Inr None)
   \<and> (output_list r = Some (random_image # rest) \<and> memo_empty (p_dtypes r)
        \<and> fst (dtypes dtype r) = Inr m \<and> field \<in> set (output_fields r)
        \<and> map_of random_image field = Some img \<and> set (dtype img) = {d}
        \<and> kind d \<notin> {CHR ''i'', CHR ''u'', CHR ''b'', CHR ''f''} \<longrightarrow>
          (field, None) \<in> set m)"
proof -
  have single: "infer_tf_dtypes ds = Inr None"
    if "set ds = {d}" "kind d \<notin> {CHR ''i'', CHR ''u'', CHR ''b'', CHR ''f''}" for ds
    using that by (simp add: infer_tf_dtypes_def remdups_singleton NP_TF_DTYPES_None)
  have memo: "(field, None) \<in> set m"
    if ol: "output_list r = Some (random_image # rest)" and me: "memo_empty (p_dtypes r)"
      and res: "fst (dtypes dtype r) = Inr m" and f: "field \<in> set (output_fields r)"
      and img: "map_of random_image field = Some img" and ds: "set (dtype img) = {d}"
      and k: "kind d \<notin> {CHR ''i'', CHR ''u'', CHR ''b'', CHR ''f''}"
  proof -
    from ol me res have mm: "mapM (field_dtype dtype random_image) (output_fields r) = Inr m"
      by (auto simp: dtypes_def split: sum.splits)
    from mapM_field_dtype[OF mm] have keys: "map fst m = output_fields r"
      and vals: "\<forall>(field, t) \<in> set m. \<exists>img. map_of random_image field = Some img
                 \<and> infer_tf_dtypes (dtype img) = Inr t"
      by simp_all
    from f keys have "field \<in> fst ` set m" by (metis set_map)
    then obtain t where t: "(field, t) \<in> set m" by force
    with vals img have "infer_tf_dtypes (dtype img) = Inr t" by fastforce
    with single[OF ds k] t show ?thesis by simp
  qed
  show ?thesis
  proof (intro conjI impI)
    assume "set image_dtype = {d} \<and> kind d \<notin> {CHR ''i'', CHR ''u'', CHR ''b'', CHR ''f''}"
    then show "infer_tf_dtypes image_dtype = Inr None" using single by simp
  next
    assume "output_list r = Some (random_image # rest) \<and> memo_empty (p_dtypes r)
        \<and> fst (dtypes dtype r) = Inr m \<and> field \<in> set (output_fields r)
        \<and> map_of random_image field = Some img \<and> set (dtype img) = {d}
        \<and> kind d \<notin> {CHR ''i'', CHR ''u'', CHR ''b'', CHR ''f''}"
    then show "(field, None) \<in> set m" using memo by simp
  qed
qed

theorem infer_tf_dtypes_unknown_kind_witness:
  "infer_tf_dtypes [Dtype (CHR ''c'') 16] = Inr None
   \<and> dtypes (\<lambda>img. img)
         \<lparr>p_file_list = (None :: string data_frame option), output_fields = [''image''], p_input_sources = None,
          p_dtypes = None, output_list = Some [[(''image'', [Dtype (CHR ''c'') 16])]],
          current_id = None\<rparr>
      = (Inr [(''image'', None)],
         \<lparr>p_file_list = (None :: string data_frame option), output_fields = [''image''], p_input_sources = None,
          p_dtypes = Some [(''image'', None)],
          output_list = Some [[(''image'', [Dtype (CHR ''c'') 16])]], current_id = None\<rparr>)
   \<and> (''image'', None) \<in> set [(''image'', None :: tf_dtype option)]"
proof -
  let ?d = "Dtype (CHR ''c'') 16"
  let ?r = "\<lparr>p_file_list = (None :: string data_frame option), output_fields = [''image''], p_input_sources = None,
          p_dtypes = None, output_list = Some [[(''image'', [?d])]],
          current_id = None\<rparr> :: (string, np_dtype list) reader"
  let ?m = "[(''image'', None :: tf_dtype option)]"
  have k: "set [?d] = {?d} \<and> kind ?d \<notin> {CHR ''i'', CHR ''u'', CHR ''b'', CHR ''f''}" by simp
  have run: "dtypes (\<lambda>img. img) ?r = (Inr ?m, ?r\<lparr>p_dtypes := Some ?m\<rparr>)"
    by (simp add: memo_empty_def dtypes_def field_dtype_def infer_tf_dtypes_def NP_TF_DTYPES_def)
  have h: "output_list ?r = Some ([(''image'', [?d])] # []) \<and> memo_empty (p_dtypes ?r)
        \<and> fst (dtypes (\<lambda>img. img) ?r) = Inr ?m \<and> ''image'' \<in> set (output_fields ?r)
        \<and> map_of [(''image'', [?d])] ''image'' = Some [?d] \<and> set ((\<lambda>img. img) [?d]) = {?d}
        \<and> kind ?d \<notin> {CHR ''i'', CHR ''u'', CHR ''b'', CHR ''f''}"
    using run by (simp add: memo_empty_def)
  have 1: "infer_tf_dtypes [?d] = Inr None"
    using infer_tf_dtypes_unknown_kind[of "[?d]" ?d, THEN conjunct1] k by (rule mp)
  have 2: "(''image'', None) \<in> set ?m"
    using infer_tf_dtypes_unknown_kind[of _ ?d ?r "[(''image'', [?d])]" "[]" "\<lambda>img. img" ?m "''image''" "[?d]",
        THEN conjunct2] h by (rule mp)
  from 1 2 run show ?thesis by simp
qed

subsection \<open>The merge of the manifests\<close>

lemma rows_read_csv:
  "fst ` set (rows (read_csv infer m t)) = fst ` set (read_table infer t)"
  by (force simp: read_csv_def)

lemma rows_merge_read_csv:
  "rows (merge df (read_csv infer m t)) =
     concat (map (\<lambda>(s, ps).
                map (\<lambda>(s', p). (s, ps @ [p]))
                  (filter (\<lambda>(s', p). s' = s) (read_table infer t)))
              (rows df))"
  by (simp add: merge_def read_csv_def filter_map comp_def case_prod_unfold)

lemma in_rows_merge:
  "(s, qs) \<in> set (rows (merge df (read_csv infer m t))) \<longleftrightarrow>
     (\<exists>ps p. qs = ps @ [p] \<and> (s, ps) \<in> set (rows df) \<and> (s, p) \<in> set (read_table infer t))"
proof
  assume "(s, qs) \<in> set (rows (merge df (read_csv infer m t)))"
  then show "\<exists>ps p. qs = ps @ [p] \<and> (s, ps) \<in> set (rows df)
               \<and> (s, p) \<in> set (read_table infer t)"
    by (auto simp: rows_merge_read_csv)
next
  assume "\<exists>ps p. qs = ps @ [p] \<and> (s, ps) \<in> set (rows df) \<and> (s, p) \<in> set (read_table infer t)"
  then obtain ps p where q: "qs = ps @ [p]" and l: "(s, ps) \<in> set (rows df)"
    and r: "(s, p) \<in> set (read_table infer t)"
    by (elim exE conjE) (rule that)
  from r have "(s, ps @ [p]) \<in> (\<lambda>(s', p). (s, ps @ [p])) `
                 {x \<in> set (read_table infer t). case x of (s', p) \<Rightarrow> s' = s}"
    by force
  with l q show "(s, qs) \<in> set (rows (merge df (read_csv infer m t)))"
    by (auto simp: rows_merge_read_csv intro!: bexI[of _ "(s, ps)"])
qed

lemma subjects_merge:
  "fst ` set (rows (merge df (read_csv infer m t))) = fst ` set (rows df) \<inter> fst ` set (read_table infer t)"
proof (rule set_eqI)
  fix s
  have "s \<in> fst ` set (rows (merge df (read_csv infer m t))) \<longleftrightarrow> (\<exists>qs. (s, qs) \<in> set (rows (merge df (read_csv infer m t))))"
    by force
  also have "\<dots> \<longleftrightarrow> (\<exists>ps p. (s, ps) \<in> set (rows df) \<and> (s, p) \<in> set (read_table infer t))"
    unfolding in_rows_merge by blast
  also have "\<dots> \<longleftrightarrow> s \<in> fst ` set (rows df) \<inter> fst ` set (read_table infer t)"
    by force
  finally show "s \<in> fst ` set (rows (merge df (read_csv infer m t))) \<longleftrightarrow> s \<in> fst ` set (rows df) \<inter> fst ` set (read_table infer t)" .
qed

lemma columns_merge: "columns (merge df (read_csv infer m t)) = columns df @ [m]"
  by (simp add: merge_def read_csv_def)

lemma merge_csv_files_Some:
  assumes "\<forall>(m, param) \<in> set data_param. fs (csv_file param) \<noteq> None"
  shows "\<exists>df'. merge_csv_files infer fs (Some df) data_param = Inr (Some df')
           \<and> columns df' = columns df @ map fst data_param
           \<and> fst ` set (rows df') = fst ` set (rows df) \<inter> common_subject_ids infer fs data_param"
  using assms
proof (induction data_param arbitrary: df)
  case Nil
  then show ?case by (simp add: common_subject_ids_def)
next
  case (Cons entry data_param)
  obtain m param where e: "entry = (m, param)" by (cases entry)
  with Cons.prems obtain t where t: "fs (csv_file param) = Some t" by auto
  from Cons.prems have rest: "\<forall>(m, param) \<in> set data_param. fs (csv_file param) \<noteq> None" by simp
  from Cons.IH[OF rest, of "merge df (read_csv infer m t)"] obtain df' where
    df': "merge_csv_files infer fs (Some (merge df (read_csv infer m t))) data_param = Inr (Some df')"
    "columns df' = columns (merge df (read_csv infer m t)) @ map fst data_param"
    "fst ` set (rows df') = fst ` set (rows (merge df (read_csv infer m t))) \<inter> common_subject_ids infer fs data_param"
    by blast
  have "common_subject_ids infer fs (entry # data_param) = fst ` set (read_table infer t) \<inter> common_subject_ids infer fs data_param"
    by (simp add: common_subject_ids_def subject_ids_def e t)
  with df' e t show ?case
    by (auto simp: merge_csv_file_def Let_def subjects_merge columns_merge)
qed

lemma merge_csv_files_None:
  assumes "data_param \<noteq> []"
    and "\<forall>(m, param) \<in> set data_param. fs (csv_file param) \<noteq> None"
  shows "\<exists>df'. merge_csv_files infer fs None data_param = Inr (Some df')
           \<and> columns df' = map fst data_param
           \<and> fst ` set (rows df') = common_subject_ids infer fs data_param"
proof -
  from assms(1) obtain m param rest where dp: "data_param = (m, param) # rest"
    by (cases data_param) auto
  with assms(2) obtain t where t: "fs (csv_file param) = Some t" by auto
  from assms(2) dp have rest: "\<forall>(m, param) \<in> set rest. fs (csv_file param) \<noteq> None" by simp
  from merge_csv_files_Some[OF rest, where df = "read_csv infer m t" and infer = infer] obtain df' where
    df': "merge_csv_files infer fs (Some (read_csv infer m t)) rest = Inr (Some df')"
    "columns df' = columns (read_csv infer m t) @ map fst rest"
    "fst ` set (rows df') = fst ` set (rows (read_csv infer m t)) \<inter> common_subject_ids infer fs rest"
    by blast
  have "common_subject_ids infer fs data_param = fst ` set (read_table infer t) \<inter> common_subject_ids infer fs rest"
    by (simp add: common_subject_ids_def subject_ids_def dp t)
  with df'(3) have s3: "fst ` set (rows df') = common_subject_ids infer fs data_param"
    by (simp only: rows_read_csv)
  from df'(2) dp have c2: "columns df' = map fst data_param"
    by (simp add: read_csv_def)
  from df'(1) dp t have "merge_csv_files infer fs None data_param = Inr (Some df')"
    by (simp add: merge_csv_file_def Let_def)
  with c2 s3 show ?thesis by blast
qed


lemma mixed_columns:
  "numeral_columns [''1'', ''2'', ''x''] = [Text ''1'', Text ''2'', Text ''x'']"
  "numeral_columns [''1'', ''2''] = [Number 1, Number 2]"
  "numeral_columns [''001''] = [Number 1]"
  "numeral_columns [''1''] = [Number 1]"
  "numeral_columns [''a1.img'', ''a2.img'', ''ax.img''] = [Text ''a1.img'', Text ''a2.img'', Text ''ax.img'']"
  "numeral_columns [''b1.img'', ''b2.img''] = [Text ''b1.img'', Text ''b2.img'']"
  "numeral_columns [''a1.img''] = [Text ''a1.img'']"
  "numeral_columns [''b1.img''] = [Text ''b1.img'']"
  by (simp_all add: numeral_columns_def is_numeral_def number_def digit_def)


lemma filter_key_distinct:
  "distinct (map fst t) \<Longrightarrow>
     filter (\<lambda>(s', p). s' = s) t = (case map_of t s of None \<Rightarrow> [] | Some p \<Rightarrow> [(s, p)])"
proof (induction t)
  case Nil
  then show ?case by simp
next
  case (Cons x t)
  obtain s' p' where x: "x = (s', p')" by (cases x)
  show ?case
  proof (cases "s' = s")
    case True
    with Cons.prems x have "map_of t s = None" by (simp add: map_of_eq_None_iff)
    with Cons x True show ?thesis by simp
  next
    case False
    with Cons x show ?thesis by simp
  qed
qed

lemma subjects_merge_list:
  assumes "distinct (map fst (read_table infer t))"
  shows "map fst (rows (merge df (read_csv infer m t)))
           = filter (\<lambda>s. map_of (read_table infer t) s \<noteq> None) (map fst (rows df))"
proof -
  let ?tt = "read_table infer t"
  have "map fst (concat (map (\<lambda>(s, ps).
                map (\<lambda>(s', p). (s, ps @ [p])) (filter (\<lambda>(s', p). s' = s) ?tt)) rs))
        = filter (\<lambda>s. map_of ?tt s \<noteq> None) (map fst rs)" for rs :: "('a \<times> 'a list) list"
    by (induction rs) (auto simp: filter_key_distinct[OF assms] split: option.splits)
  then show ?thesis by (simp add: rows_merge_read_csv)
qed

lemma distinct_merge:
  "distinct (map fst (read_table infer t)) \<Longrightarrow> distinct (map fst (rows df)) \<Longrightarrow>
     distinct (map fst (rows (merge df (read_csv infer m t))))"
  by (simp add: subjects_merge_list)

lemma agrees_read_csv:
  assumes "distinct (map fst (read_table infer t))"
    and "row \<in> set (rows (read_csv infer m t))"
  shows "agrees [read_table infer t] row"
proof -
  from assms(2) obtain s p where "row = (s, [p])" "(s, p) \<in> set (read_table infer t)"
    by (auto simp: read_csv_def)
  with assms(1) show ?thesis by (simp add: agrees_def)
qed

lemma agrees_merge:
  assumes "distinct (map fst (read_table infer t))" and "\<forall>row \<in> set (rows df). agrees ts row"
    and "row \<in> set (rows (merge df (read_csv infer m t)))"
  shows "agrees (ts @ [read_table infer t]) row"
proof -
  obtain s qs where row: "row = (s, qs)" by (cases row)
  with assms(3) have "(s, qs) \<in> set (rows (merge df (read_csv infer m t)))" by simp
  then have "\<exists>ps p. qs = ps @ [p] \<and> (s, ps) \<in> set (rows df)
               \<and> (s, p) \<in> set (read_table infer t)"
    by (simp only: in_rows_merge)
  then obtain ps p where q: "qs = ps @ [p]" and l: "(s, ps) \<in> set (rows df)"
    and r: "(s, p) \<in> set (read_table infer t)"
    by (elim exE conjE) (rule that)
  from assms(2) l have a: "length ps = length ts" "\<forall>i < length ts. map_of (ts ! i) s = Some (ps ! i)"
    by (auto simp: agrees_def)
  from assms(1) r have "map_of (read_table infer t) s = Some p" by simp
  with a q row show ?thesis
    by (auto simp: agrees_def nth_append less_Suc_eq)
qed

lemma merge_csv_files_agrees:
  assumes "\<forall>(m, param) \<in> set data_param.
             \<exists>t. fs (csv_file param) = Some t \<and> distinct (map fst (read_table infer t))"
    and "distinct (map fst (rows df))" and "\<forall>row \<in> set (rows df). agrees ts row"
  shows "\<exists>df'. merge_csv_files infer fs (Some df) data_param = Inr (Some df')
           \<and> distinct (map fst (rows df'))
           \<and> (\<forall>row \<in> set (rows df').
                 agrees (ts @ map (\<lambda>(m, param). read_table infer (the (fs (csv_file param))))
                               data_param) row)"
  using assms
proof (induction data_param arbitrary: df ts)
  case Nil
  then show ?case by simp
next
  case (Cons entry data_param)
  obtain m param where e: "entry = (m, param)" by (cases entry)
  with Cons.prems(1) obtain t where t: "fs (csv_file param) = Some t"
    and d: "distinct (map fst (read_table infer t))"
    by auto
  from Cons.prems(1)
  have rest: "\<forall>(m, param) \<in> set data_param.
                \<exists>t. fs (csv_file param) = Some t \<and> distinct (map fst (read_table infer t))"
    by simp
  have d': "distinct (map fst (rows (merge df (read_csv infer m t))))"
    using d Cons.prems(2) by (rule distinct_merge)
  have a': "\<forall>row \<in> set (rows (merge df (read_csv infer m t))). agrees (ts @ [read_table infer t]) row"
    using agrees_merge[OF d Cons.prems(3)] by blast
  from Cons.IH[OF rest d' a'] obtain df' where
    run: "merge_csv_files infer fs (Some (merge df (read_csv infer m t))) data_param = Inr (Some df')"
    and dd: "distinct (map fst (rows df'))"
    and aa: "\<forall>row \<in> set (rows df').
                 agrees ((ts @ [read_table infer t])
                          @ map (\<lambda>(m, param). read_table infer (the (fs (csv_file param))))
                              data_param) row"
    by (elim exE conjE) (rule that)
  from run e t have "merge_csv_files infer fs (Some df) (entry # data_param) = Inr (Some df')"
    by (simp add: merge_csv_file_def Let_def)
  moreover from aa e t have "\<forall>row \<in> set (rows df').
      agrees (ts @ map (\<lambda>(m, param). read_table infer (the (fs (csv_file param))))
                    (entry # data_param)) row"
    by simp
  ultimately show ?case using dd by blast
qed

text \<open>
  Claim C1, as amended. When there is at least one modality, every csv file exists and
  lists no subject identifier twice, and some subject identifier is common to all
  manifests, \<open>load_and_merge_csv_files\<close> returns a frame with one column per modality,
  in the order of the data parameters, and exactly one row per subject identifier
  common to all manifests; in each row the path in the column of a modality is the path
  that the manifest of that modality gives for the subject. Subject identifiers and
  paths are the cells as pandas reads them, after its inference of the column types.
\<close>

theorem merged_manifest_rows:
  assumes "data_param \<noteq> []"
    and "\<forall>(m, param) \<in> set data_param.
           \<exists>t. fs (csv_file param) = Some t \<and> distinct (map fst (read_table infer t))"
    and "common_subject_ids infer fs data_param \<noteq> {}"
  shows "\<exists>file_list. load_and_merge_csv_files infer fs data_param = Inr file_list
         \<and> columns file_list = map fst data_param
         \<and> distinct (map fst (rows file_list))
         \<and> set (map fst (rows file_list)) = common_subject_ids infer fs data_param
         \<and> (\<forall>(s, ps) \<in> set (rows file_list).
               length ps = length data_param
               \<and> (\<forall>i < length data_param.
                     \<exists>t. fs (csv_file (snd (data_param ! i))) = Some t
                         \<and> map_of (read_table infer t) s = Some (ps ! i)))"
proof -
  have files: "\<forall>(m, param) \<in> set data_param. fs (csv_file param) \<noteq> None"
    using assms(2) by fastforce
  from merge_csv_files_None[OF assms(1) files, where infer = infer] obtain file_list where
    run: "merge_csv_files infer fs None data_param = Inr (Some file_list)"
    and cols: "columns file_list = map fst data_param"
    and subj: "fst ` set (rows file_list) = common_subject_ids infer fs data_param"
    by (elim exE conjE) (rule that)
  from subj assms(3) have "rows file_list \<noteq> []" by auto
  with run have res: "load_and_merge_csv_files infer fs data_param = Inr file_list"
    by (simp add: load_and_merge_csv_files_def size_df_def)
  from assms(1) obtain m param rest where dp: "data_param = (m, param) # rest"
    by (cases data_param) auto
  with assms(2) obtain t where t: "fs (csv_file param) = Some t"
    and d: "distinct (map fst (read_table infer t))"
    by auto
  from assms(2) dp
  have rest: "\<forall>(m, param) \<in> set rest.
                \<exists>t. fs (csv_file param) = Some t \<and> distinct (map fst (read_table infer t))"
    by simp
  have d0: "distinct (map fst (rows (read_csv infer m t)))"
    using d by (simp add: read_csv_def comp_def case_prod_beta)
  have a0: "\<forall>row \<in> set (rows (read_csv infer m t)). agrees [read_table infer t] row"
    using agrees_read_csv[OF d] by blast
  from merge_csv_files_agrees[OF rest d0 a0] obtain df' where
    run': "merge_csv_files infer fs (Some (read_csv infer m t)) rest = Inr (Some df')"
    and dd: "distinct (map fst (rows df'))"
    and aa: "\<forall>row \<in> set (rows df').
                 agrees ([read_table infer t]
                          @ map (\<lambda>(m, param). read_table infer (the (fs (csv_file param)))) rest)
                   row"
    by (elim exE conjE) (rule that)
  from run' dp t have "merge_csv_files infer fs None data_param = Inr (Some df')"
    by (simp add: merge_csv_file_def Let_def)
  with run have eq: "df' = file_list" by simp
  have tabs: "[read_table infer t]
                @ map (\<lambda>(m, param). read_table infer (the (fs (csv_file param)))) rest
                = map (\<lambda>(m, param). read_table infer (the (fs (csv_file param)))) data_param"
    by (simp add: dp t)
  have paths: "\<forall>(s, ps) \<in> set (rows file_list).
               length ps = length data_param
               \<and> (\<forall>i < length data_param.
                     \<exists>t. fs (csv_file (snd (data_param ! i))) = Some t
                         \<and> map_of (read_table infer t) s = Some (ps ! i))"
  proof (clarify, intro conjI allI impI)
    fix s ps assume row: "(s, ps) \<in> set (rows file_list)"
    with aa eq tabs
    have ag: "agrees (map (\<lambda>(m, param). read_table infer (the (fs (csv_file param)))) data_param)
                (s, ps)"
      by auto
    then show "length ps = length data_param" by (simp add: agrees_def)
    fix i assume i: "i < length data_param"
    with ag
    have look: "map_of (read_table infer (the (fs (csv_file (snd (data_param ! i)))))) s
                  = Some (ps ! i)"
      by (simp add: agrees_def case_prod_beta)
    from i have "data_param ! i \<in> set data_param" by simp
    with files have "fs (csv_file (snd (data_param ! i))) \<noteq> None"
      by (auto simp: case_prod_beta)
    then obtain t' where "fs (csv_file (snd (data_param ! i))) = Some t'" by auto
    with look show "\<exists>t. fs (csv_file (snd (data_param ! i))) = Some t
                      \<and> map_of (read_table infer t) s = Some (ps ! i)"
      by simp
  qed
  from dd eq have "distinct (map fst (rows file_list))" by simp
  with res cols subj paths show ?thesis by (intro exI[of _ file_list] conjI) simp_all
qed

theorem merged_manifest_rows_witness:
  "example_data_param \<noteq> []
   \<and> common_subject_ids text_columns example_fs example_data_param = {''s1'', ''s2''}
   \<and> load_and_merge_csv_files text_columns example_fs example_data_param =
       Inr \<lparr>columns = [''A'', ''B''],
            rows = [(''s1'', [''a1.img'', ''b1.img'']), (''s2'', [''a2.img'', ''b2.img''])]\<rparr>
   \<and> (\<exists>file_list. load_and_merge_csv_files text_columns example_fs example_data_param
                      = Inr file_list
         \<and> columns file_list = map fst example_data_param
         \<and> distinct (map fst (rows file_list))
         \<and> set (map fst (rows file_list))
             = common_subject_ids text_columns example_fs example_data_param
         \<and> (\<forall>(s, ps) \<in> set (rows file_list).
               length ps = length example_data_param
               \<and> (\<forall>i < length example_data_param.
                     \<exists>t. example_fs (csv_file (snd (example_data_param ! i))) = Some t
                         \<and> map_of (read_table text_columns t) s = Some (ps ! i))))
   \<and> common_subject_ids numeral_columns padded_fs example_data_param = {Number 1}
   \<and> load_and_merge_csv_files numeral_columns padded_fs example_data_param =
       Inr \<lparr>columns = [''A'', ''B''],
            rows = [(Number 1, [Text ''a1.img'', Text ''b1.img''])]\<rparr>"
proof -
  have ne: "example_data_param \<noteq> []"
    by (simp add: example_data_param_def)
  have files: "\<forall>(m, param) \<in> set example_data_param.
                 \<exists>t. example_fs (csv_file param) = Some t
                     \<and> distinct (map fst (read_table text_columns t))"
    by (simp add: example_data_param_def example_fs_def read_table_def text_columns_def)
  have common: "common_subject_ids text_columns example_fs example_data_param = {''s1'', ''s2''}"
    by (auto simp: common_subject_ids_def subject_ids_def example_data_param_def example_fs_def
        read_table_def text_columns_def)
  then have some: "common_subject_ids text_columns example_fs example_data_param \<noteq> {}"
    by simp
  note first = merged_manifest_rows[OF ne files some]
  have files': "\<forall>(m, param) \<in> set example_data_param.
                 \<exists>t. padded_fs (csv_file param) = Some t
                     \<and> distinct (map fst (read_table numeral_columns t))"
    by (simp add: example_data_param_def padded_fs_def read_table_def mixed_columns)
  have common': "common_subject_ids numeral_columns padded_fs example_data_param = {Number 1}"
    by (simp add: common_subject_ids_def subject_ids_def example_data_param_def padded_fs_def
        read_table_def mixed_columns)
  then have some': "common_subject_ids numeral_columns padded_fs example_data_param \<noteq> {}"
    by simp
  from merged_manifest_rows[OF ne files' some'] obtain file_list where
    res: "load_and_merge_csv_files numeral_columns padded_fs example_data_param = Inr file_list"
    by (elim exE conjE) (rule that)
  have padded: "load_and_merge_csv_files numeral_columns padded_fs example_data_param =
       Inr \<lparr>columns = [''A'', ''B''],
            rows = [(Number 1, [Text ''a1.img'', Text ''b1.img''])]\<rparr>"
    by (simp add: load_and_merge_csv_files_def merge_csv_file_def padded_fs_def
        example_data_param_def read_csv_def read_table_def merge_def size_df_def mixed_columns)
  from ne common example_merge first common' padded show ?thesis by (intro conjI)
qed

text \<open>
  The claim as stated fails: a manifest that lists the subject \<open>s1\<close> twice gives a
  merged frame with two rows for that subject.
\<close>

theorem merged_manifest_rows_counterexample:
  "common_subject_ids text_columns duplicate_fs example_data_param = {''s1''}
   \<and> load_and_merge_csv_files text_columns duplicate_fs example_data_param =
       Inr \<lparr>columns = [''A'', ''B''],
            rows = [(''s1'', [''a1.img'', ''b1.img'']),
                    (''s1'', [''a1_repeat.img'', ''b1.img''])]\<rparr>"
proof -
  have common: "common_subject_ids text_columns duplicate_fs example_data_param = {''s1''}"
    by (auto simp: common_subject_ids_def subject_ids_def example_data_param_def duplicate_fs_def
        read_table_def text_columns_def)
  have run: "load_and_merge_csv_files text_columns duplicate_fs example_data_param =
       Inr \<lparr>columns = [''A'', ''B''],
            rows = [(''s1'', [''a1.img'', ''b1.img'']),
                    (''s1'', [''a1_repeat.img'', ''b1.img''])]\<rparr>"
    by (simp add: load_and_merge_csv_files_def merge_csv_file_def duplicate_fs_def
        example_data_param_def read_csv_def read_table_def text_columns_def merge_def size_df_def)
  from common run show ?thesis by (rule conjI)
qed

subsection \<open>What initialisation establishes\<close>

lemma load_and_merge_rows:
  "load_and_merge_csv_files infer fs data_param = Inr file_list \<Longrightarrow> rows file_list \<noteq> []"
  by (auto simp: load_and_merge_csv_files_def size_df_def split: sum.splits option.splits if_splits)

lemma row_dict_nonempty:
  "row_dict create_instance r data_param i = Inr e \<Longrightarrow> e \<noteq> []"
  by (auto simp: row_dict_def input_sources_def mapM_Inr_conv split: sum.splits option.splits list.splits)

lemma filename_to_image_list_entries:
  assumes "filename_to_image_list create_instance r data_param = Inr images"
    and "p_file_list r = Some file_list"
  shows "length images = length (rows file_list) \<and> [] \<notin> set images"
proof -
  from assms have m: "mapM (row_dict create_instance r data_param) [0 ..< length (rows file_list)] = Inr images"
    by (simp add: filename_to_image_list_def)
  then have len: "length images = length (rows file_list)" by (simp add: mapM_Inr_conv)
  have "e \<noteq> []" if "e \<in> set images" for e
  proof -
    from that obtain i where "i < length images" "images ! i = e" by (auto simp: in_set_conv_nth)
    with m len have "row_dict create_instance r data_param i = Inr e"
      by (auto simp: mapM_Inr_conv)
    then show ?thesis by (rule row_dict_nonempty)
  qed
  with len show ?thesis by auto
qed

lemma initialise_reader_success:
  assumes "initialise_reader infer fs seg gan create_instance data_param task_param r0 = (Inr (), r)"
  shows "\<exists>file_list app_type r2 images.
           map_of task_param ''name'' = Some app_type
         \<and> load_and_merge_csv_files infer fs data_param = Inr file_list
         \<and> default_output_fields (supported_input seg gan app_type) (r0\<lparr>p_file_list := Some file_list\<rparr>) = Inr r2
         \<and> filename_to_image_list create_instance (select_fields task_param r2) data_param = Inr images
         \<and> r = (select_fields task_param r2)\<lparr>output_list := Some images, current_id := Some (- 1)\<rparr>"
  using assms
  by (auto simp: initialise_reader_def Let_def split: option.splits sum.splits)

lemma initialise_reader_ready:
  assumes "initialise_reader infer fs seg gan create_instance data_param task_param r0 = (Inr (), r)"
  shows "ready r \<and> current_id r = Some (- 1)"
proof -
  from initialise_reader_success[OF assms] obtain file_list app_type r2 images where
    lm: "load_and_merge_csv_files infer fs data_param = Inr file_list"
    and d: "default_output_fields (supported_input seg gan app_type) (r0\<lparr>p_file_list := Some file_list\<rparr>) = Inr r2"
    and f: "filename_to_image_list create_instance (select_fields task_param r2) data_param = Inr images"
    and r: "r = (select_fields task_param r2)\<lparr>output_list := Some images, current_id := Some (- 1)\<rparr>"
    by blast
  from d have "p_file_list r2 = Some file_list"
    by (auto simp: default_output_fields_def split: if_splits option.splits)
  then have "p_file_list (select_fields task_param r2) = Some file_list"
    by (simp add: select_fields_def Let_def)
  from filename_to_image_list_entries[OF f this] load_and_merge_rows[OF lm]
  have "images \<noteq> []" "[] \<notin> set images" by auto
  with r show ?thesis by (simp add: ready_def)
qed

lemma layer_op_ready:
  "ready r \<Longrightarrow> layer_op get_data shuffle seed r = (res, r') \<Longrightarrow> ready r'"
  by (auto simp: ready_def layer_op_def Let_def split: if_splits option.splits sum.splits)

lemma dtypes_ready:
  "ready r \<Longrightarrow> dtypes dtype r = (res, r') \<Longrightarrow> ready r'"
  by (auto simp: ready_def dtypes_def split: if_splits option.splits sum.splits list.splits)

lemma initialised_ready:
  "initialised create_instance get_data dtype r \<Longrightarrow> ready r"
proof (induction rule: initialised.induct)
  case (after_initialise_reader fs SUPPORTED_seg SUPPORTED_gan data_param task_param r0 r)
  then show ?case using initialise_reader_ready by blast
next
  case (after_layer_op r shuffle seed res r')
  then show ?case using layer_op_ready by blast
next
  case (after_dtypes r res' r')
  then show ?case using dtypes_ready by blast
qed

lemma return_image_nonempty:
  "e \<noteq> [] \<Longrightarrow> return_image get_data idx (Some e)
     = (Some idx, Some (map (\<lambda>(field, img). (field, get_data img)) e))"
  by (cases e) (simp_all add: return_image_def)

subsection \<open>Resolution of the output fields\<close>

lemma merge_csv_files_Inl:
  "merge_csv_files infer fs acc data_param = Inl e \<Longrightarrow> \<exists>f. e = IOError_csv_not_found f"
  by (induction data_param arbitrary: acc)
     (auto simp: merge_csv_file_def Let_def split: sum.splits option.splits prod.splits)

lemma create_image_Inl:
  assumes "create_image create_instance r idx modalities data_param = Inl e"
  shows "e \<in> {TypeError, AttributeError, KeyError_modality_not_found}"
proof -
  have loc: "e' = KeyError" if "loc df idx m = Inl e'" for df m e'
    using that by (auto simp: loc_def split: if_splits prod.splits option.splits)
  have fl: "e' \<in> {AttributeError, KeyError}" if "file_list_loc r idx m = Inl e'" for m e'
    using that loc by (auto simp: file_list_loc_def split: option.splits)
  have lp: "e' = KeyError" if "lookup_param data_param m = Inl e'" for m e'
    using that by (auto simp: lookup_param_def split: option.splits)
  have it: "e' = TypeError" if "iter modalities = Inl e'" for e'
    using that by (cases modalities) auto
  from assms show ?thesis
    by (auto simp: create_image_def key_error_handler_def
        split: sum.splits error.splits dest!: mapM_Inl fl lp it)
qed

lemma filename_to_image_list_Inl:
  assumes "filename_to_image_list create_instance r data_param = Inl e"
  shows "e \<in> {TypeError, AttributeError, KeyError_modality_not_found, RuntimeError}"
proof (cases "p_file_list r")
  case None
  with assms show ?thesis by (simp add: filename_to_image_list_def)
next
  case (Some file_list)
  with assms obtain i where i: "row_dict create_instance r data_param i = Inl e"
    by (auto simp: filename_to_image_list_def dest!: mapM_Inl)
  show ?thesis
  proof (cases "input_sources r")
    case (Inl e')
    with i have "e = RuntimeError"
      by (auto simp: row_dict_def input_sources_def split: option.splits list.splits)
    then show ?thesis by simp
  next
    case (Inr src)
    with i obtain field modalities where
      "create_image create_instance r i modalities data_param = Inl e"
      by (auto simp: row_dict_def split: sum.splits dest!: mapM_Inl)
    from create_image_Inl[OF this] show ?thesis by auto
  qed
qed

text \<open>
  Claim C3, as amended. Let the application name be neither of the two known ones and
  let the manifests merge. If the reader has no output fields of its own,
  \<open>initialise_reader\<close> fails where it reads the unbound \<open>SUPPORTED_INPUT\<close>, having
  stored only the merged manifest. If the reader was given output fields, that name is
  never read and \<open>initialise_reader\<close> does not fail in this way.
\<close>

theorem unrecognised_application:
  assumes "map_of task_param ''name'' = Some app_type"
    and "app_type \<noteq> Str ''net_segmentation.py''" and "app_type \<noteq> Str ''net_gan.py''"
    and "load_and_merge_csv_files infer fs data_param = Inr file_list"
  shows "(output_fields r = [] \<longrightarrow>
            initialise_reader infer fs SUPPORTED_seg SUPPORTED_gan create_instance data_param task_param r
              = (Inl UnboundLocalError, r\<lparr>p_file_list := Some file_list\<rparr>))
       \<and> (output_fields r \<noteq> [] \<longrightarrow>
            fst (initialise_reader infer fs SUPPORTED_seg SUPPORTED_gan create_instance data_param
                   task_param r) \<noteq> Inl UnboundLocalError)"
proof (intro conjI impI)
  assume "output_fields r = []"
  with assms show "initialise_reader infer fs SUPPORTED_seg SUPPORTED_gan create_instance data_param task_param r
              = (Inl UnboundLocalError, r\<lparr>p_file_list := Some file_list\<rparr>)"
    by (simp add: initialise_reader_def supported_input_def default_output_fields_def)
next
  assume ne: "output_fields r \<noteq> []"
  let ?r1 = "r\<lparr>p_file_list := Some file_list\<rparr>"
  let ?r3 = "select_fields task_param ?r1"
  from ne have d: "default_output_fields (supported_input SUPPORTED_seg SUPPORTED_gan app_type) ?r1 = Inr ?r1"
    by (simp add: default_output_fields_def)
  show "fst (initialise_reader infer fs SUPPORTED_seg SUPPORTED_gan create_instance data_param
                   task_param r) \<noteq> Inl UnboundLocalError"
  proof (cases "filename_to_image_list create_instance ?r3 data_param")
    case (Inl e)
    from filename_to_image_list_Inl[OF this] have "e \<noteq> UnboundLocalError" by auto
    with Inl assms d show ?thesis by (simp add: initialise_reader_def Let_def)
  next
    case (Inr images)
    with assms d show ?thesis
      by (auto simp: initialise_reader_def Let_def input_sources_def select_fields_def
          split: sum.splits option.splits list.splits)
  qed
qed

text \<open>
  The claim as stated fails: with the output field \<open>image\<close> given to the constructor,
  the initialisation for the unknown application \<open>net_other.py\<close> succeeds.
\<close>

theorem unrecognised_application_counterexample:
  "map_of other_task_param ''name'' = Some (Str ''net_other.py'')
   \<and> supported_input SUPPORTED_INPUT_seg SUPPORTED_INPUT_gan (Str ''net_other.py'') = None
   \<and> initialise_reader text_columns example_fs SUPPORTED_INPUT_seg SUPPORTED_INPUT_gan (\<lambda>p. p)
        example_data_param other_task_param (ImageReader [''image'']) = (Inr (), example_reader)"
  using other_initialise by (simp add: other_task_param_def supported_input_def)

theorem unrecognised_application_witness:
  "initialise_reader text_columns example_fs SUPPORTED_INPUT_seg SUPPORTED_INPUT_gan (\<lambda>p. p)
     example_data_param other_task_param
     (ImageReader [] :: (string, (string, nat list, string) image_properties) reader)
     = (Inl UnboundLocalError,
        (ImageReader [])\<lparr>p_file_list := Some \<lparr>columns = [''A'', ''B''],
           rows = [(''s1'', [''a1.img'', ''b1.img'']), (''s2'', [''a2.img'', ''b2.img''])]\<rparr>\<rparr>)
   \<and> fst (initialise_reader text_columns example_fs SUPPORTED_INPUT_seg SUPPORTED_INPUT_gan (\<lambda>p. p)
          example_data_param other_task_param
          (ImageReader [''image''] :: (string, (string, nat list, string) image_properties) reader))
       \<noteq> Inl UnboundLocalError"
proof -
  have n: "map_of other_task_param ''name'' = Some (Str ''net_other.py'')"
    by (simp add: other_task_param_def)
  have a: "Str ''net_other.py'' \<noteq> Str ''net_segmentation.py''"
    and b: "Str ''net_other.py'' \<noteq> Str ''net_gan.py''"
    by simp_all
  have e: "output_fields (ImageReader [] :: (string, (string, nat list, string) image_properties) reader) = []"
    and f: "output_fields (ImageReader [''image''] :: (string, (string, nat list, string) image_properties) reader) \<noteq> []"
    by (simp_all add: ImageReader_def)
  note inst = unrecognised_application[OF n a b example_merge,
      where SUPPORTED_seg = SUPPORTED_INPUT_seg and SUPPORTED_gan = SUPPORTED_INPUT_gan
        and create_instance = "\<lambda>p. p"]
  from inst[of "ImageReader []", THEN conjunct1] e
  have 1: "initialise_reader text_columns example_fs SUPPORTED_INPUT_seg SUPPORTED_INPUT_gan (\<lambda>p. p)
     example_data_param other_task_param
     (ImageReader [] :: (string, (string, nat list, string) image_properties) reader)
     = (Inl UnboundLocalError,
        (ImageReader [])\<lparr>p_file_list := Some \<lparr>columns = [''A'', ''B''],
           rows = [(''s1'', [''a1.img'', ''b1.img'']), (''s2'', [''a2.img'', ''b2.img''])]\<rparr>\<rparr>)"
    by (rule mp)
  from inst[of "ImageReader [''image'']", THEN conjunct2] f
  have 2: "fst (initialise_reader text_columns example_fs SUPPORTED_INPUT_seg SUPPORTED_INPUT_gan (\<lambda>p. p)
          example_data_param other_task_param
          (ImageReader [''image''] :: (string, (string, nat list, string) image_properties) reader))
       \<noteq> Inl UnboundLocalError"
    by (rule mp)
  from 1 2 show ?thesis by (rule conjI)
qed

lemma map_of_filter_key:
  "distinct (map fst xs) \<Longrightarrow>
     map_of (filter (\<lambda>(k, v). P k v) xs) k = (case map_of xs k of
        None \<Rightarrow> None | Some v \<Rightarrow> if P k v then Some v else None)"
proof (induction xs)
  case Nil
  then show ?case by simp
next
  case (Cons x xs)
  obtain k' v' where x: "x = (k', v')" by (cases x)
  from Cons.prems x have nk: "map_of xs k' = None"
    by (simp add: map_of_eq_None_iff)
  from Cons x nk show ?case by (auto split: option.splits)
qed

lemma initialise_reader_sources:
  assumes "initialise_reader infer fs seg gan create_instance data_param task_param r0 = (Inr (), r)"
  shows "\<exists>src. input_sources r = Inr src"
  using assms
  by (auto simp: initialise_reader_def Let_def split: option.splits sum.splits)

lemma fields_in_force:
  assumes "initialise_reader infer fs SUPPORTED_seg SUPPORTED_gan create_instance data_param task_param r0
             = (Inr (), r)"
    and "distinct (map fst task_param)"
  shows "\<exists>app_type fields_tuple src.
           map_of task_param ''name'' = Some app_type
         \<and> (if output_fields r0 = []
              then supported_input SUPPORTED_seg SUPPORTED_gan app_type = Some fields_tuple
              else fields_tuple = output_fields r0)
         \<and> set (output_fields r) =
             {field \<in> set fields_tuple. \<exists>v. map_of task_param field = Some v \<and> v \<noteq> Tup []}
         \<and> distinct (output_fields r)
         \<and> input_sources r = Inr src
         \<and> map fst src = output_fields r
         \<and> (\<forall>field \<in> set (output_fields r). map_of src field = map_of task_param field)"
proof -
  from initialise_reader_success[OF assms(1)] obtain file_list app_type r2 images where
    n: "map_of task_param ''name'' = Some app_type"
    and d: "default_output_fields (supported_input SUPPORTED_seg SUPPORTED_gan app_type)
              (r0\<lparr>p_file_list := Some file_list\<rparr>) = Inr r2"
    and r: "r = (select_fields task_param r2)\<lparr>output_list := Some images, current_id := Some (- 1)\<rparr>"
    by blast
  define fields_tuple where "fields_tuple = output_fields r2"
  define src where "src = filter (\<lambda>(field_name, v). field_name \<in> set fields_tuple \<and> v \<noteq> Tup [])
                            task_param"
  from d have ft: "if output_fields r0 = []
              then supported_input SUPPORTED_seg SUPPORTED_gan app_type = Some fields_tuple
              else fields_tuple = output_fields r0"
    by (auto simp: default_output_fields_def fields_tuple_def split: if_splits option.splits)
  from r have flds: "output_fields r = map fst src" and ps: "p_input_sources r = Some src"
    by (simp_all add: select_fields_def Let_def src_def fields_tuple_def)
  have look: "map_of src k = (case map_of task_param k of
        None \<Rightarrow> None | Some v \<Rightarrow> if k \<in> set fields_tuple \<and> v \<noteq> Tup [] then Some v else None)" for k
    unfolding src_def using assms(2) by (rule map_of_filter_key)
  have dist: "distinct (map fst src)"
    unfolding src_def using assms(2) by (simp add: distinct_map_filter)
  have keys: "set (output_fields r) =
             {field \<in> set fields_tuple. \<exists>v. map_of task_param field = Some v \<and> v \<noteq> Tup []}"
  proof -
    have "set (map fst src) = dom (map_of src)" by (simp add: dom_map_of_conv_image_fst)
    also have "\<dots> = {field \<in> set fields_tuple. \<exists>v. map_of task_param field = Some v \<and> v \<noteq> Tup []}"
      by (auto simp: look dom_def split: option.splits if_splits)
    finally show ?thesis by (simp add: flds)
  qed
  have vals: "\<forall>field \<in> set (output_fields r). map_of src field = map_of task_param field"
    using keys by (auto simp: look)
  from initialise_reader_sources[OF assms(1)] ps have srcs: "input_sources r = Inr src"
    by (auto simp: input_sources_def split: option.splits list.splits)
  from n ft keys dist srcs flds vals show ?thesis by auto
qed

text \<open>
  Claim C7, as amended. Take a successful \<open>initialise_reader\<close> for an application with
  a supported-field set, on task parameters with distinct keys that bind the supported
  fields to modality tuples, where the output fields given to the constructor, if any,
  are all supported. Then the output fields are exactly the names that are in the
  supported-field set, among the fields given to the constructor when some were given,
  and bound to a modality tuple that is not empty. The property \<open>input_sources\<close>
  returns a dictionary whose keys are these output fields, in the same order, each
  with its declared modality tuple, which is not empty.
\<close>

theorem resolved_output_fields:
  assumes "initialise_reader infer fs SUPPORTED_seg SUPPORTED_gan create_instance data_param
             task_param r0 = (Inr (), r)"
    and "distinct (map fst task_param)"
    and "map_of task_param ''name'' = Some app_type"
    and "supported_input SUPPORTED_seg SUPPORTED_gan app_type = Some SUPPORTED_INPUT"
    and "set (output_fields r0) \<subseteq> set SUPPORTED_INPUT"
    and "\<forall>field \<in> set SUPPORTED_INPUT.
           \<forall>v. map_of task_param field = Some v \<longrightarrow> (\<exists>modalities. v = Tup modalities)"
  shows "\<exists>src.
           set (output_fields r) =
             {field \<in> set SUPPORTED_INPUT.
                (output_fields r0 = [] \<or> field \<in> set (output_fields r0))
                \<and> (\<exists>modalities. map_of task_param field = Some (Tup modalities)
                                  \<and> modalities \<noteq> [])}
         \<and> distinct (output_fields r)
         \<and> input_sources r = Inr src
         \<and> map fst src = output_fields r
         \<and> (\<forall>field \<in> set (output_fields r).
               \<exists>modalities. modalities \<noteq> []
                 \<and> map_of src field = Some (Tup modalities)
                 \<and> map_of task_param field = Some (Tup modalities))"
proof -
  from fields_in_force[OF assms(1,2)] obtain app_type' fields_tuple src where
    n: "map_of task_param ''name'' = Some app_type'"
    and ft: "if output_fields r0 = []
              then supported_input SUPPORTED_seg SUPPORTED_gan app_type' = Some fields_tuple
              else fields_tuple = output_fields r0"
    and keys: "set (output_fields r) =
             {field \<in> set fields_tuple. \<exists>v. map_of task_param field = Some v \<and> v \<noteq> Tup []}"
    and dist: "distinct (output_fields r)"
    and srcs: "input_sources r = Inr src"
    and flds: "map fst src = output_fields r"
    and vals: "\<forall>field \<in> set (output_fields r). map_of src field = map_of task_param field"
    by (elim exE conjE) (rule that)
  from n assms(3) have "app_type' = app_type" by simp
  with ft assms(4) have tuple: "fields_tuple = (if output_fields r0 = [] then SUPPORTED_INPUT
                                                 else output_fields r0)"
    by (simp split: if_splits)
  with assms(5) have within: "set fields_tuple \<subseteq> set SUPPORTED_INPUT"
    by (simp split: if_splits)
  have bound: "(\<exists>v. map_of task_param field = Some v \<and> v \<noteq> Tup []) \<longleftrightarrow>
               (\<exists>modalities. map_of task_param field = Some (Tup modalities) \<and> modalities \<noteq> [])"
    if "field \<in> set SUPPORTED_INPUT" for field
    using assms(6) that by fastforce
  have keys': "set (output_fields r) =
             {field \<in> set SUPPORTED_INPUT.
                (output_fields r0 = [] \<or> field \<in> set (output_fields r0))
                \<and> (\<exists>modalities. map_of task_param field = Some (Tup modalities)
                                  \<and> modalities \<noteq> [])}"
  proof (rule set_eqI)
    fix field
    have "field \<in> set (output_fields r) \<longleftrightarrow>
            field \<in> set fields_tuple \<and> (\<exists>v. map_of task_param field = Some v \<and> v \<noteq> Tup [])"
      by (simp add: keys)
    also have "\<dots> \<longleftrightarrow> field \<in> set SUPPORTED_INPUT
                \<and> (output_fields r0 = [] \<or> field \<in> set (output_fields r0))
                \<and> (\<exists>modalities. map_of task_param field = Some (Tup modalities)
                                  \<and> modalities \<noteq> [])"
      using within bound[of field] by (auto simp: tuple split: if_splits)
    finally show "field \<in> set (output_fields r) \<longleftrightarrow>
            field \<in> {field \<in> set SUPPORTED_INPUT.
                (output_fields r0 = [] \<or> field \<in> set (output_fields r0))
                \<and> (\<exists>modalities. map_of task_param field = Some (Tup modalities)
                                  \<and> modalities \<noteq> [])}"
      by simp
  qed
  have vals': "\<forall>field \<in> set (output_fields r).
               \<exists>modalities. modalities \<noteq> []
                 \<and> map_of src field = Some (Tup modalities)
                 \<and> map_of task_param field = Some (Tup modalities)"
  proof
    fix field assume f: "field \<in> set (output_fields r)"
    with keys' obtain modalities where
      "map_of task_param field = Some (Tup modalities)" "modalities \<noteq> []"
      by auto
    with vals f show "\<exists>modalities. modalities \<noteq> []
                 \<and> map_of src field = Some (Tup modalities)
                 \<and> map_of task_param field = Some (Tup modalities)"
      by auto
  qed
  from keys' dist srcs flds vals' show ?thesis by (intro exI[of _ src] conjI)
qed

lemma both_initialise:
  "initialise_reader text_columns example_fs SUPPORTED_INPUT_seg SUPPORTED_INPUT_gan (\<lambda>p. p)
     example_data_param both_task_param (ImageReader [''image'']) = (Inr (), both_reader)"
  unfolding initialise_reader_def example_merge
  by (simp add: both_task_param_def supported_input_def default_output_fields_def
      ImageReader_def select_fields_def filename_to_image_list_def
      row_dict_def input_sources_def create_image_def key_error_handler_def file_list_loc_def
      loc_def lookup_param_def example_data_param_def both_reader_def upt_rec)

theorem resolved_output_fields_witness:
  "initialise_reader text_columns example_fs SUPPORTED_INPUT_seg SUPPORTED_INPUT_gan (\<lambda>p. p)
     example_data_param example_task_param (ImageReader []) = (Inr (), example_reader)
   \<and> (\<exists>src.
         set (output_fields example_reader) =
           {field \<in> set SUPPORTED_INPUT_seg.
              (output_fields (ImageReader []
                 :: (string, (string, nat list, string) image_properties) reader) = []
               \<or> field \<in> set (output_fields (ImageReader []
                 :: (string, (string, nat list, string) image_properties) reader)))
              \<and> (\<exists>modalities. map_of example_task_param field = Some (Tup modalities)
                                \<and> modalities \<noteq> [])}
         \<and> distinct (output_fields example_reader)
         \<and> input_sources example_reader = Inr src
         \<and> map fst src = output_fields example_reader
         \<and> (\<forall>field \<in> set (output_fields example_reader).
               \<exists>modalities. modalities \<noteq> []
                 \<and> map_of src field = Some (Tup modalities)
                 \<and> map_of example_task_param field = Some (Tup modalities)))
   \<and> initialise_reader text_columns example_fs SUPPORTED_INPUT_seg SUPPORTED_INPUT_gan (\<lambda>p. p)
       example_data_param both_task_param (ImageReader [''image'']) = (Inr (), both_reader)
   \<and> (\<exists>src.
         set (output_fields both_reader) =
           {field \<in> set SUPPORTED_INPUT_seg.
              (output_fields (ImageReader [''image'']
                 :: (string, (string, nat list, string) image_properties) reader) = []
               \<or> field \<in> set (output_fields (ImageReader [''image'']
                 :: (string, (string, nat list, string) image_properties) reader)))
              \<and> (\<exists>modalities. map_of both_task_param field = Some (Tup modalities)
                                \<and> modalities \<noteq> [])}
         \<and> distinct (output_fields both_reader)
         \<and> input_sources both_reader = Inr src
         \<and> map fst src = output_fields both_reader
         \<and> (\<forall>field \<in> set (output_fields both_reader).
               \<exists>modalities. modalities \<noteq> []
                 \<and> map_of src field = Some (Tup modalities)
                 \<and> map_of both_task_param field = Some (Tup modalities)))"
proof -
  have d: "distinct (map fst example_task_param)"
    by (simp add: example_task_param_def)
  have n: "map_of example_task_param ''name'' = Some (Str ''net_segmentation.py'')"
    by (simp add: example_task_param_def)
  have s: "supported_input SUPPORTED_INPUT_seg SUPPORTED_INPUT_gan (Str ''net_segmentation.py'')
             = Some SUPPORTED_INPUT_seg"
    by (simp add: supported_input_def)
  have e: "set (output_fields (ImageReader []
             :: (string, (string, nat list, string) image_properties) reader))
           \<subseteq> set SUPPORTED_INPUT_seg"
    by (simp add: ImageReader_def)
  have t: "\<forall>field \<in> set SUPPORTED_INPUT_seg.
           \<forall>v. map_of example_task_param field = Some v \<longrightarrow> (\<exists>modalities. v = Tup modalities)"
    by (simp add: SUPPORTED_INPUT_seg_def example_task_param_def)
  have d': "distinct (map fst both_task_param)"
    by (simp add: both_task_param_def)
  have n': "map_of both_task_param ''name'' = Some (Str ''net_segmentation.py'')"
    by (simp add: both_task_param_def)
  have e': "set (output_fields (ImageReader [''image'']
             :: (string, (string, nat list, string) image_properties) reader))
           \<subseteq> set SUPPORTED_INPUT_seg"
    by (simp add: ImageReader_def SUPPORTED_INPUT_seg_def)
  have t': "\<forall>field \<in> set SUPPORTED_INPUT_seg.
           \<forall>v. map_of both_task_param field = Some v \<longrightarrow> (\<exists>modalities. v = Tup modalities)"
    by (simp add: SUPPORTED_INPUT_seg_def both_task_param_def)
  note first = resolved_output_fields[OF example_initialise d n s e t]
  note second = resolved_output_fields[OF both_initialise d' n' s e' t']
  from example_initialise first both_initialise second show ?thesis by (intro conjI)
qed

text \<open>
  The claim as stated fails: a reader constructed with the output field \<open>image\<close>
  only resolves to \<open>image\<close>, although \<open>label\<close> is supported by the segmentation
  application and bound to a modality.
\<close>

theorem resolved_output_fields_counterexample:
  "fst (initialise_reader text_columns example_fs SUPPORTED_INPUT_seg SUPPORTED_INPUT_gan (\<lambda>p. p)
          example_data_param both_task_param (ImageReader [''image''])) = Inr ()
   \<and> output_fields (snd (initialise_reader text_columns example_fs SUPPORTED_INPUT_seg SUPPORTED_INPUT_gan
          (\<lambda>p. p) example_data_param both_task_param (ImageReader [''image'']))) = [''image'']
   \<and> ''label'' \<in> set SUPPORTED_INPUT_seg
   \<and> map_of both_task_param ''label'' = Some (Tup [''B''])
   \<and> Tup [''B''] \<noteq> Tup []"
proof -
  have run: "fst (initialise_reader text_columns example_fs SUPPORTED_INPUT_seg SUPPORTED_INPUT_gan (\<lambda>p. p)
          example_data_param both_task_param (ImageReader [''image''])) = Inr ()
   \<and> output_fields (snd (initialise_reader text_columns example_fs SUPPORTED_INPUT_seg SUPPORTED_INPUT_gan
          (\<lambda>p. p) example_data_param both_task_param (ImageReader [''image'']))) = [''image'']"
    unfolding initialise_reader_def example_merge
    by (simp add: both_task_param_def supported_input_def default_output_fields_def
      ImageReader_def select_fields_def filename_to_image_list_def
      row_dict_def input_sources_def create_image_def key_error_handler_def file_list_loc_def
      loc_def lookup_param_def example_data_param_def upt_rec)
  have label: "''label'' \<in> set SUPPORTED_INPUT_seg
      \<and> map_of both_task_param ''label'' = Some (Tup [''B'']) \<and> Tup [''B''] \<noteq> Tup []"
    by (simp add: SUPPORTED_INPUT_seg_def both_task_param_def)
  from run label show ?thesis by simp
qed

subsection \<open>Construction of the list of images\<close>

lemma mapM_all_errors:
  assumes "x \<in> set xs" and "f x = Inl e" and "\<forall>y \<in> set xs. \<forall>e'. f y = Inl e' \<longrightarrow> e' = e"
  shows "mapM f xs = Inl e"
  using assms
proof (induction xs)
  case Nil
  then show ?case by simp
next
  case (Cons y ys)
  show ?case
  proof (cases "f y")
    case (Inl e')
    with Cons.prems(3) have "e' = e" by simp
    with Inl show ?thesis by simp
  next
    case (Inr v)
    with Cons.prems(1,2) have "x \<in> set ys" by auto
    from Cons.IH[OF this Cons.prems(2)] Cons.prems(3) have "mapM f ys = Inl e" by simp
    with Inr show ?thesis by simp
  qed
qed

lemma create_image_Inl_iterable:
  assumes "create_image create_instance r idx modalities data_param = Inl e"
    and "modalities \<noteq> Other" and "p_file_list r = Some file_list"
  shows "e = KeyError_modality_not_found"
proof -
  have loc: "e' = KeyError" if "loc df idx m = Inl e'" for df m e'
    using that by (auto simp: loc_def split: if_splits prod.splits option.splits)
  have fl: "e' = KeyError" if "file_list_loc r idx m = Inl e'" for m e'
    using that loc assms(3) by (auto simp: file_list_loc_def)
  have lp: "e' = KeyError" if "lookup_param data_param m = Inl e'" for m e'
    using that by (auto simp: lookup_param_def split: option.splits)
  from assms(2) obtain mods where it: "iter modalities = Inr mods"
    by (cases modalities) auto
  from assms(1) it show ?thesis
    by (auto simp: create_image_def key_error_handler_def
        split: sum.splits error.splits dest!: mapM_Inl fl lp)
qed

lemma create_image_unknown:
  assumes "iter modalities = Inr mods" and "m \<in> set mods" and "map_of data_param m = None"
    and "p_file_list r = Some file_list"
  shows "create_image create_instance r idx modalities data_param = Inl KeyError_modality_not_found"
proof (cases "create_image create_instance r idx modalities data_param")
  case (Inl e)
  from assms(1) have "modalities \<noteq> Other" by auto
  from create_image_Inl_iterable[OF Inl this assms(4)] Inl show ?thesis by simp
next
  case (Inr img)
  with assms(1) obtain params where "mapM (lookup_param data_param) mods = Inr params"
    by (auto simp: create_image_def key_error_handler_def split: sum.splits error.splits)
  then have "\<forall>i < length mods. lookup_param data_param (mods ! i) = Inr (params ! i)"
    by (simp add: mapM_Inr_conv)
  moreover from assms(2) obtain i where "i < length mods" "mods ! i = m"
    by (auto simp: in_set_conv_nth)
  ultimately have "lookup_param data_param m = Inr (params ! i)" by auto
  with assms(3) show ?thesis by (simp add: lookup_param_def)
qed

text \<open>
  Claim C5. Let the file list of the reader be one that \<open>load_and_merge_csv_files\<close>
  returned for the data parameters, and let every field be bound to a tuple or a
  string. If the modalities of some field contain a name that has no section in the
  data parameters, \<open>create_image\<close> for that field fails with the error logged as
  "Specified modality names ... not found in config", at every row, and
  \<open>filename_to_image_list\<close> fails with the same error: it returns no list at all.
\<close>

theorem unknown_modality_aborts:
  assumes "load_and_merge_csv_files infer fs data_param = Inr file_list"
    and "p_file_list r = Some file_list"
    and "p_input_sources r = Some src"
    and "\<forall>(field, v) \<in> set src. v \<noteq> Other"
    and "(field, modalities) \<in> set src"
    and "iter modalities = Inr mods" and "m \<in> set mods" and "map_of data_param m = None"
  shows "create_image create_instance r idx modalities data_param
           = Inl KeyError_modality_not_found
       \<and> filename_to_image_list create_instance r data_param
           = Inl KeyError_modality_not_found"
proof
  show bad: "create_image create_instance r idx modalities data_param
           = Inl KeyError_modality_not_found" for idx
    using assms(6,7,8,2) by (rule create_image_unknown)
  let ?field = "\<lambda>row_id (field, modalities).
                  case create_image create_instance r row_id modalities data_param of
                    Inl e \<Rightarrow> Inl e
                  | Inr img \<Rightarrow> Inr (field, img)"
  from assms(3,5) have srcs: "input_sources r = Inr src"
    by (auto simp: input_sources_def split: list.splits)
  have row: "row_dict create_instance r data_param row_id = Inl KeyError_modality_not_found"
    for row_id
  proof -
    have one: "?field row_id (field, modalities) = Inl KeyError_modality_not_found"
      using bad by simp
    have others: "\<forall>y \<in> set src. \<forall>e'. ?field row_id y = Inl e' \<longrightarrow> e' = KeyError_modality_not_found"
    proof (intro ballI allI impI)
      fix y e' assume y: "y \<in> set src" and e': "?field row_id y = Inl e'"
      obtain f v where fv: "y = (f, v)" by (cases y)
      with y assms(4) have "v \<noteq> Other" by auto
      moreover from e' fv have "create_image create_instance r row_id v data_param = Inl e'"
        by (auto split: sum.splits)
      ultimately show "e' = KeyError_modality_not_found"
        using create_image_Inl_iterable assms(2) by blast
    qed
    from mapM_all_errors[OF assms(5) one others] srcs show ?thesis
      by (simp add: row_dict_def)
  qed
  from load_and_merge_rows[OF assms(1)] have "0 \<in> set [0 ..< length (rows file_list)]"
    by simp
  then have "mapM (row_dict create_instance r data_param) [0 ..< length (rows file_list)]
      = Inl KeyError_modality_not_found"
    using row by (rule mapM_all_errors) (simp add: row)
  with assms(2) show "filename_to_image_list create_instance r data_param
           = Inl KeyError_modality_not_found"
    by (simp add: filename_to_image_list_def)
qed

theorem unknown_modality_aborts_witness:
  "map_of example_data_param ''C'' = None
   \<and> create_image (\<lambda>p. p) unknown_reader 0 (Tup [''A'', ''C'']) example_data_param
       = Inl KeyError_modality_not_found
   \<and> filename_to_image_list (\<lambda>p. p) unknown_reader example_data_param
       = Inl KeyError_modality_not_found"
proof -
  have fl: "p_file_list unknown_reader = Some \<lparr>columns = [''A'', ''B''],
          rows = [(''s1'', [''a1.img'', ''b1.img'']), (''s2'', [''a2.img'', ''b2.img''])]\<rparr>"
    by (simp add: unknown_reader_def example_reader_def)
  have src: "p_input_sources unknown_reader = Some [(''image'', Tup [''A'', ''C''])]"
    by (simp add: unknown_reader_def)
  have iterable: "\<forall>(field, v) \<in> set [(''image'', Tup [''A'', ''C''])]. v \<noteq> Other"
    by simp
  have field: "(''image'', Tup [''A'', ''C'']) \<in> set [(''image'', Tup [''A'', ''C''])]"
    by simp
  have it: "iter (Tup [''A'', ''C'']) = Inr [''A'', ''C'']"
    by simp
  have m: "''C'' \<in> set [''A'', ''C'']"
    by simp
  have absent: "map_of example_data_param ''C'' = None"
    by (simp add: example_data_param_def)
  from unknown_modality_aborts[OF example_merge fl src iterable field it m absent,
      of "\<lambda>p. p" 0] absent
  show ?thesis by (intro conjI) simp_all
qed

subsection \<open>Access to the list of images\<close>

text \<open>
  Claim C8. In every state of an initialised reader, a call of \<open>layer_op\<close> with
  \<open>shuffle\<close> true returns the reader as it was, with every attribute unchanged, and
  returns an index that is at least 0 and below the length of the list of images,
  together with the data of the selected entry.
\<close>

theorem shuffled_access_frame:
  assumes "initialised create_instance get_data dtype r"
  shows "snd (layer_op get_data True seed r) = r
       \<and> (\<exists>images idx data. output_list r = Some images
            \<and> fst (layer_op get_data True seed r) = Inr (Some idx, Some data)
            \<and> 0 \<le> idx \<and> idx < int (length images))"
proof -
  from initialised_ready[OF assms] obtain images where
    im: "output_list r = Some images" "images \<noteq> []" "[] \<notin> set images"
    by (auto simp: ready_def)
  let ?i = "seed mod length images"
  from im have i: "?i < length images" by simp
  then have "images ! ?i \<noteq> []" using im(3) by (metis nth_mem)
  then have "return_image get_data (int ?i) (Some (images ! ?i))
     = (Some (int ?i), Some (map (\<lambda>(field, img). (field, get_data img)) (images ! ?i)))"
    by (rule return_image_nonempty)
  with im i show ?thesis
    by (simp add: layer_op_def randint_def)
qed

theorem shuffled_access_frame_witness:
  "initialised (\<lambda>p. p) file_path (\<lambda>p. []) example_reader
   \<and> snd (layer_op file_path True 5 example_reader) = example_reader
   \<and> fst (layer_op file_path True 5 example_reader)
       = Inr (Some 1, Some [(''image'', [''a2.img'', ''b2.img''])])"
proof -
  have i: "initialised (\<lambda>p. p) file_path (\<lambda>p. []) example_reader"
    using example_initialise by (rule initialised.after_initialise_reader)
  have "snd (layer_op file_path True 5 example_reader) = example_reader"
    using shuffled_access_frame[OF i, of 5] by (rule conjunct1)
  moreover have "fst (layer_op file_path True 5 example_reader)
       = Inr (Some 1, Some [(''image'', [''a2.img'', ''b2.img''])])"
  proof -
    have len: "length example_images = 2"
      by (simp add: example_images_def)
    have second: "example_images ! Suc 0 =
        [(''image'',
          \<lparr>file_path = [''a2.img'', ''b2.img''], name = Tup [''A'', ''B''],
           interp_orders = [3, 0], output_pixdim = [[1, 1, 1], [2, 2, 2]],
           output_axcodes = [''RAS'', ''LPS'']\<rparr>)]"
      by (simp add: example_images_def)
    show ?thesis
      by (simp add: layer_op_def randint_def return_image_def example_reader_def len second)
  qed
  ultimately show ?thesis using i by simp
qed

lemma sequential_calls_from:
  assumes "output_list r = Some images" and "[] \<notin> set images"
    and "current_id r = Some c" and "- 1 \<le> c"
  shows "sequential_calls get_data k r =
           (map (\<lambda>j. Inr (if c + 1 + int j < int (length images)
                           then (Some (c + 1 + int j),
                                 Some (map (\<lambda>(field, img). (field, get_data img))
                                         (images ! nat (c + 1 + int j))))
                           else (None, None)))
                [0 ..< k],
            r\<lparr>current_id := Some (c + int k)\<rparr>)"
  using assms
proof (induction k arbitrary: r c)
  case 0
  then show ?case by simp
next
  case (Suc k)
  let ?r' = "r\<lparr>current_id := Some (c + 1)\<rparr>"
  let ?res = "Inr (if c + 1 < int (length images)
                           then (Some (c + 1),
                                 Some (map (\<lambda>(field, img). (field, get_data img))
                                         (images ! nat (c + 1))))
                           else (None, None)) :: error + 'c layer_result"
  have call: "layer_op get_data False 0 r = (?res, ?r')"
  proof (cases "c + 1 < int (length images)")
    case True
    with Suc.prems have "nat (c + 1) < length images" by simp
    then have "images ! nat (c + 1) \<noteq> []" using Suc.prems(2) by (metis nth_mem)
    then have "return_image get_data (c + 1) (Some (images ! nat (c + 1)))
      = (Some (c + 1), Some (map (\<lambda>(field, img). (field, get_data img)) (images ! nat (c + 1))))"
      by (rule return_image_nonempty)
    with True Suc.prems show ?thesis by (simp add: layer_op_def Let_def)
  next
    case False
    with Suc.prems show ?thesis by (simp add: layer_op_def Let_def return_image_def)
  qed
  have rest: "sequential_calls get_data k ?r' =
           (map (\<lambda>j. Inr (if (c + 1) + 1 + int j < int (length images)
                           then (Some ((c + 1) + 1 + int j),
                                 Some (map (\<lambda>(field, img). (field, get_data img))
                                         (images ! nat ((c + 1) + 1 + int j))))
                           else (None, None)))
                [0 ..< k],
            ?r'\<lparr>current_id := Some ((c + 1) + int k)\<rparr>)"
    using Suc.prems by (intro Suc.IH) simp_all
  have shift: "[0 ..< Suc k] = 0 # map Suc [0 ..< k]"
    by (simp add: upt_conv_Cons map_Suc_upt del: upt_Suc)
  show ?case
    unfolding shift using call rest
    by (simp add: comp_def add.assoc add.commute add.left_commute del: upt_Suc)
qed

text \<open>
  Claim C2. After a successful \<open>initialise_reader\<close> the cursor is -1 and the list of
  images has N entries, N at least 1. Of any number of successive calls of \<open>layer_op\<close>
  with \<open>shuffle\<close> false, the call number j + 1 returns the index j and the data of
  entry j while j is below N, and the pair of \<open>None\<close> from then on; after k calls the
  cursor is k - 1, so every call adds exactly one to it, also after exhaustion, and
  nothing else in the reader changes.
\<close>

theorem sequential_access:
  assumes "initialise_reader infer fs SUPPORTED_seg SUPPORTED_gan create_instance data_param task_param r0
             = (Inr (), r)"
  shows "\<exists>images. output_list r = Some images \<and> images \<noteq> [] \<and> current_id r = Some (- 1)
          \<and> (\<forall>k. sequential_calls get_data k r =
                (map (\<lambda>j. Inr (if j < length images
                                then (Some (int j),
                                      Some (map (\<lambda>(field, img). (field, get_data img))
                                              (images ! j)))
                                else (None, None)))
                     [0 ..< k],
                 r\<lparr>current_id := Some (int k - 1)\<rparr>))"
proof -
  from initialise_reader_ready[OF assms] obtain images where
    im: "output_list r = Some images" "images \<noteq> []" "[] \<notin> set images"
    and c: "current_id r = Some (- 1)"
    by (auto simp: ready_def)
  have "sequential_calls get_data k r =
                (map (\<lambda>j. Inr (if j < length images
                                then (Some (int j),
                                      Some (map (\<lambda>(field, img). (field, get_data img))
                                              (images ! j)))
                                else (None, None)))
                     [0 ..< k],
                 r\<lparr>current_id := Some (int k - 1)\<rparr>)" for k
    using sequential_calls_from[OF im(1) im(3) c, of get_data k] by simp
  with im c show ?thesis by blast
qed

theorem sequential_access_witness:
  "initialise_reader text_columns example_fs SUPPORTED_INPUT_seg SUPPORTED_INPUT_gan (\<lambda>p. p) example_data_param
     example_task_param (ImageReader []) = (Inr (), example_reader)
   \<and> sequential_calls file_path 4 example_reader =
       ([Inr (Some 0, Some [(''image'', [''a1.img'', ''b1.img''])]),
         Inr (Some 1, Some [(''image'', [''a2.img'', ''b2.img''])]),
         Inr (None, None),
         Inr (None, None)],
        example_reader\<lparr>current_id := Some 3\<rparr>)"
proof -
  from sequential_access[OF example_initialise, of file_path]
  obtain images where im: "output_list example_reader = Some images"
    and calls: "\<forall>k. sequential_calls file_path k example_reader =
                (map (\<lambda>j. Inr (if j < length images
                                then (Some (int j),
                                      Some (map (\<lambda>(field, img). (field, file_path img))
                                              (images ! j)))
                                else (None, None)))
                     [0 ..< k],
                 example_reader\<lparr>current_id := Some (int k - 1)\<rparr>)"
    by blast
  from im have images: "images = example_images" by (simp add: example_reader_def)
  have four: "[0 ..< 4] = [0, 1, 2, 3]" by (simp add: upt_rec)
  from calls have "sequential_calls file_path 4 example_reader =
                (map (\<lambda>j. Inr (if j < length images
                                then (Some (int j),
                                      Some (map (\<lambda>(field, img). (field, file_path img))
                                              (images ! j)))
                                else (None, None)))
                     [0 ..< 4],
                 example_reader\<lparr>current_id := Some (int 4 - 1)\<rparr>)"
    by (rule spec)
  then have "sequential_calls file_path 4 example_reader =
       ([Inr (Some 0, Some [(''image'', [''a1.img'', ''b1.img''])]),
         Inr (Some 1, Some [(''image'', [''a2.img'', ''b2.img''])]),
         Inr (None, None),
         Inr (None, None)],
        example_reader\<lparr>current_id := Some 3\<rparr>)"
    unfolding four images by (simp add: example_images_def)
  with example_initialise show ?thesis by simp
qed

text \<open>
  Claim C9, as amended. When no field is selected, because the task parameters bind
  every field of the tuple in force to the empty tuple or do not bind it at all,
  \<open>initialise_reader\<close> fails in the construction of the list of images with the error
  of the guard of \<open>input_sources\<close>, logged as "please initialise the reader first". It
  leaves no output field and an empty dictionary of input sources, and it does not
  touch the list of images and the cursor: on a reader that had none, every call of
  \<open>layer_op\<close> raises, whether \<open>shuffle\<close> is true or false, and none returns the pair
  of \<open>None\<close>. In the states of an initialised reader the list of images is not empty
  and no dictionary in it is empty.
\<close>

theorem empty_selection_fails:
  assumes "map_of task_param ''name'' = Some app_type"
    and "load_and_merge_csv_files infer fs data_param = Inr file_list"
    and "if output_fields r0 = []
         then supported_input SUPPORTED_seg SUPPORTED_gan app_type = Some fields_tuple
         else fields_tuple = output_fields r0"
    and "\<forall>(field, v) \<in> set task_param. field \<in> set fields_tuple \<longrightarrow> v = Tup []"
  shows "\<exists>r. initialise_reader infer fs SUPPORTED_seg SUPPORTED_gan create_instance data_param
                task_param r0 = (Inl RuntimeError, r)
           \<and> output_fields r = [] \<and> p_input_sources r = Some []
           \<and> output_list r = output_list r0 \<and> current_id r = current_id r0
           \<and> (output_list r0 = None \<longrightarrow>
                 layer_op get_data True seed r = (Inl TypeError, r))
           \<and> (current_id r0 = None \<longrightarrow>
                 layer_op get_data False seed r = (Inl TypeError, r))
           \<and> (initialised create_instance get_data dtype r' \<longrightarrow>
                 (\<exists>images. output_list r' = Some images \<and> images \<noteq> [] \<and> [] \<notin> set images))"
proof -
  let ?r1 = "r0\<lparr>p_file_list := Some file_list\<rparr>"
  from assms(3) obtain r2 where
    d: "default_output_fields (supported_input SUPPORTED_seg SUPPORTED_gan app_type) ?r1 = Inr r2"
    and f2: "output_fields r2 = fields_tuple"
    and same: "r2 = ?r1\<lparr>output_fields := fields_tuple\<rparr>"
    by (cases "output_fields r0 = []") (simp_all add: default_output_fields_def)
  have none: "filter (\<lambda>(field_name, v). field_name \<in> set (output_fields r2) \<and> v \<noteq> Tup [])
                task_param = []"
    using assms(4) f2 by (auto simp: filter_empty_conv)
  let ?r3 = "select_fields task_param r2"
  from none have r3: "?r3 = r2\<lparr>output_fields := [], p_input_sources := Some []\<rparr>"
    by (simp add: select_fields_def)
  have row: "row_dict create_instance ?r3 data_param row_id = Inl RuntimeError" for row_id
    by (simp add: r3 row_dict_def input_sources_def)
  have pfl: "p_file_list ?r3 = Some file_list"
    unfolding r3 by (simp add: same)
  from load_and_merge_rows[OF assms(2)] have "0 \<in> set [0 ..< length (rows file_list)]"
    by simp
  then have "mapM (row_dict create_instance ?r3 data_param) [0 ..< length (rows file_list)]
      = Inl RuntimeError"
    using row by (rule mapM_all_errors) (simp add: row)
  with pfl have build: "filename_to_image_list create_instance ?r3 data_param = Inl RuntimeError"
    by (simp add: filename_to_image_list_def)
  from assms(1,2) d build
  have run: "initialise_reader infer fs SUPPORTED_seg SUPPORTED_gan create_instance data_param
                task_param r0 = (Inl RuntimeError, ?r3)"
    by (simp add: initialise_reader_def Let_def)
  have fields: "output_fields ?r3 = []" "p_input_sources ?r3 = Some []"
    "output_list ?r3 = output_list r0" "current_id ?r3 = current_id r0"
    unfolding r3 by (simp_all add: same)
  have shuffled: "layer_op get_data True seed ?r3 = (Inl TypeError, ?r3)"
    if "output_list r0 = None"
    using that fields(3) by (simp add: layer_op_def)
  have sequential: "layer_op get_data False seed ?r3 = (Inl TypeError, ?r3)"
    if "current_id r0 = None"
    using that fields(4) by (simp add: layer_op_def)
  have built: "\<exists>images. output_list r' = Some images \<and> images \<noteq> [] \<and> [] \<notin> set images"
    if "initialised create_instance get_data dtype r'"
    using initialised_ready[OF that] by (auto simp: ready_def)
  from run fields shuffled sequential built show ?thesis
    by (intro exI[of _ ?r3] conjI impI)
qed

theorem empty_selection_fails_witness:
  "initialise_reader text_columns example_fs SUPPORTED_INPUT_seg SUPPORTED_INPUT_gan (\<lambda>p. p)
     example_data_param example_task_param (ImageReader [''weight''])
     = (Inl RuntimeError, unselected_reader)
   \<and> layer_op file_path True 3 unselected_reader = (Inl TypeError, unselected_reader)
   \<and> layer_op file_path False 3 unselected_reader = (Inl TypeError, unselected_reader)
   \<and> (\<exists>images. output_list example_reader = Some images \<and> images \<noteq> [] \<and> [] \<notin> set images)"
proof -
  let ?r0 = "ImageReader [''weight''] :: (string, (string, nat list, string) image_properties) reader"
  have n: "map_of example_task_param ''name'' = Some (Str ''net_segmentation.py'')"
    by (simp add: example_task_param_def)
  have t: "if output_fields ?r0 = []
         then supported_input SUPPORTED_INPUT_seg SUPPORTED_INPUT_gan (Str ''net_segmentation.py'')
                = Some [''weight'']
         else [''weight''] = output_fields ?r0"
    by (simp add: ImageReader_def)
  have e: "\<forall>(field, v) \<in> set example_task_param. field \<in> set [''weight''] \<longrightarrow> v = Tup []"
    by (simp add: example_task_param_def)
  have i: "initialised (\<lambda>p. p) file_path (\<lambda>p. []) example_reader"
    using example_initialise by (rule initialised.after_initialise_reader)
  from empty_selection_fails[OF n example_merge t e,
      where create_instance = "\<lambda>p. p" and get_data = file_path and seed = 3
        and dtype = "\<lambda>p. []" and r' = example_reader]
  obtain r where
    run: "initialise_reader text_columns example_fs SUPPORTED_INPUT_seg SUPPORTED_INPUT_gan
            (\<lambda>p. p) example_data_param example_task_param ?r0 = (Inl RuntimeError, r)"
    and flds: "output_fields r = []" "p_input_sources r = Some []"
    and kept: "output_list r = output_list ?r0" "current_id r = current_id ?r0"
    and sh: "output_list ?r0 = None \<longrightarrow> layer_op file_path True 3 r = (Inl TypeError, r)"
    and sq: "current_id ?r0 = None \<longrightarrow> layer_op file_path False 3 r = (Inl TypeError, r)"
    and built: "initialised (\<lambda>p. p) file_path (\<lambda>p. []) example_reader \<longrightarrow>
                 (\<exists>images. output_list example_reader = Some images \<and> images \<noteq> []
                    \<and> [] \<notin> set images)"
    by (elim exE conjE) (rule that)
  have eval: "initialise_reader text_columns example_fs SUPPORTED_INPUT_seg SUPPORTED_INPUT_gan
            (\<lambda>p. p) example_data_param example_task_param ?r0 = (Inl RuntimeError, unselected_reader)"
    unfolding initialise_reader_def example_merge
    by (simp add: example_task_param_def supported_input_def default_output_fields_def
      ImageReader_def select_fields_def filename_to_image_list_def
      row_dict_def input_sources_def unselected_reader_def upt_rec)
  with run have r: "r = unselected_reader" by simp
  have "output_list ?r0 = None" "current_id ?r0 = None"
    by (simp_all add: ImageReader_def)
  with sh sq r have calls: "layer_op file_path True 3 unselected_reader = (Inl TypeError, unselected_reader)"
    "layer_op file_path False 3 unselected_reader = (Inl TypeError, unselected_reader)"
    by simp_all
  from built i have "\<exists>images. output_list example_reader = Some images \<and> images \<noteq> []
                    \<and> [] \<notin> set images"
    by (rule mp)
  with eval calls show ?thesis by (intro conjI)
qed

text \<open>
  The claim as stated fails: with both fields switched off, the reader whose resolved
  output fields are empty has no list of images, and \<open>layer_op\<close> raises instead of
  returning the pair of \<open>None\<close>.
\<close>

theorem empty_selection_fails_counterexample:
  "initialise_reader text_columns example_fs SUPPORTED_INPUT_seg SUPPORTED_INPUT_gan (\<lambda>p. p)
     example_data_param none_task_param (ImageReader [])
     = (Inl RuntimeError, unselected_reader)
   \<and> output_fields unselected_reader = []
   \<and> output_list unselected_reader = None
   \<and> layer_op file_path True 0 unselected_reader = (Inl TypeError, unselected_reader)
   \<and> layer_op file_path False 0 unselected_reader = (Inl TypeError, unselected_reader)"
proof -
  have run: "initialise_reader text_columns example_fs SUPPORTED_INPUT_seg SUPPORTED_INPUT_gan
     (\<lambda>p. p) example_data_param none_task_param (ImageReader [])
     = (Inl RuntimeError, unselected_reader)"
    unfolding initialise_reader_def example_merge
    by (simp add: none_task_param_def supported_input_def default_output_fields_def
      ImageReader_def SUPPORTED_INPUT_seg_def select_fields_def filename_to_image_list_def
      row_dict_def input_sources_def unselected_reader_def upt_rec)
  have calls: "output_fields unselected_reader = []"
    "output_list unselected_reader = None"
    "layer_op file_path True 0 unselected_reader = (Inl TypeError, unselected_reader)"
    "layer_op file_path False 0 unselected_reader = (Inl TypeError, unselected_reader)"
    by (simp_all add: layer_op_def unselected_reader_def)
  from run calls show ?thesis by (intro conjI)
qed

end
